theory Spec2Isabelle
  imports Complex_Main "HOL-Library.Log_Nat" "HOL-Library.State_Monad"
begin

section \<open>The budgeting component of App.jsx\<close>

text \<open>
  The development embeds the business logic of \<^verbatim>\<open>ZeroBudgetApp\<close> (App.jsx): the month
  key, the rollover computation, the opening of a month, the figures of the dashboard and
  the form handlers.

  Amounts are JavaScript numbers. The forms produce them with \<^verbatim>\<open>Number\<close> from
  required fields of type \<^verbatim>\<open>number\<close>, so the numbers the state holds are finite;
  they are modelled as reals. On a value that is already a number \<^verbatim>\<open>Number\<close> is the
  identity and is left out.

  The arithmetic on them is given twice. The definitions of the first part compute
  without the rounding of the number type; the statements on the opening of a month,
  on the form handlers, on the totals of the dashboard and on the percentage of the
  progress bar are about these. The definitions with the suffix \<open>_f64\<close> compute as
  the program does, in binary64 arithmetic with its rounding, its infinities and
  \<^verbatim>\<open>NaN\<close>; the statements on the value of the rollover, on the sum over the
  categories and on the reads are about these.
\<close>

subsection \<open>Strings of numbers\<close>

definition digit_char :: "nat \<Rightarrow> char" where
  "digit_char d = char_of (48 + d)"

text \<open>\<^verbatim>\<open>String(n)\<close> for a natural number: its decimal digits.\<close>

fun digits :: "nat \<Rightarrow> string" where
  "digits n = (if n < 10 then [digit_char n] else digits (n div 10) @ [digit_char (n mod 10)])"

declare digits.simps [simp del]

text \<open>\<^verbatim>\<open>String(i)\<close> for an integer.\<close>

definition show_int :: "int \<Rightarrow> string" where
  "show_int i = (if i < 0 then CHR ''-'' # digits (nat (- i)) else digits (nat i))"

text \<open>\<^verbatim>\<open>s.padStart(2, '0')\<close>.\<close>

definition padStart2 :: "string \<Rightarrow> string" where
  "padStart2 s = replicate (2 - length s) CHR ''0'' @ s"

text \<open>\<^verbatim>\<open>s.split('-')\<close>: the pieces between the dashes; never an empty list.\<close>

fun split_dash :: "string \<Rightarrow> string list" where
  "split_dash [] = [[]]"
| "split_dash (c # cs) =
     (if c = CHR ''-'' then [] # split_dash cs
      else (case split_dash cs of p # ps \<Rightarrow> (c # p) # ps | [] \<Rightarrow> [[c]]))"

definition is_digit :: "char \<Rightarrow> bool" where
  "is_digit c = ((48::nat) \<le> of_char c \<and> of_char c \<le> (57::nat))"

definition digit_val :: "char \<Rightarrow> nat" where
  "digit_val c = of_char c - 48"

text \<open>
  \<^verbatim>\<open>Number(s)\<close> on a piece of a month key; \<open>None\<close> is \<^verbatim>\<open>NaN\<close>. The empty string
  is 0 and a string of decimal digits is its value. The pieces of a key written by
  \<open>getMonthKey\<close> are of these two kinds or the text \<^verbatim>\<open>NaN\<close>; the other numeric
  literals of the language (signs, fractions, exponents, hexadecimal, surrounding white
  space) do not occur in them and are not modelled: they are mapped to \<^verbatim>\<open>NaN\<close>.
\<close>

definition Number_str :: "string \<Rightarrow> int option" where
  "Number_str s =
     (if list_all is_digit s then Some (int (foldl (\<lambda>acc c. 10 * acc + digit_val c) 0 s))
      else None)"

subsection \<open>Dates and month keys\<close>

text \<open>
  A \<^verbatim>\<open>Date\<close> as far as the month key reads it: the full year and the month index
  (0 is January), or the invalid date.
\<close>

datatype jsdate = Date (getFullYear: int) (getMonth: nat) | InvalidDate

text \<open>
  \<^verbatim>\<open>new Date(year, monthIndex)\<close>. A \<^verbatim>\<open>NaN\<close> argument gives the invalid date. A year
  from 0 to 99 stands for 1900 + year. A month index outside 0..11 carries into the
  year. The type holds the instants within 100000000 days of 1 January 1970, from
  20 April -271821 to 13 September 275760, and a date outside is invalid. The date built
  is the first day of the month at midnight, local time: it is in the range from May
  -271821 (month 12 * (-271821) + 4 = -3261848, counting months from January of year 0)
  to September 275760 (month 12 * 275760 + 8 = 3309128), with eleven days or more to
  spare on either side, so the time zone does not enter; the getters read the same
  local calendar.
\<close>

definition new_Date :: "int option \<Rightarrow> int option \<Rightarrow> jsdate" where
  "new_Date year monthIndex =
     (case (year, monthIndex) of
        (Some y, Some m) \<Rightarrow>
          (let yr = (if 0 \<le> y \<and> y \<le> 99 then 1900 + y else y);
               ym = yr + m div 12;
               mn = nat (m mod 12)
           in if 12 * ym + int mn < -3261848 \<or> 3309128 < 12 * ym + int mn then InvalidDate
              else Date ym mn)
      | _ \<Rightarrow> InvalidDate)"

text \<open>
  \<^verbatim>\<open>getMonthKey = (date) => `${date.getFullYear()}-${String(date.getMonth() + 1).padStart(2, '0')}`\<close>.
  On the invalid date both getters are \<^verbatim>\<open>NaN\<close>.
\<close>

fun getMonthKey :: "jsdate \<Rightarrow> string" where
  "getMonthKey (Date y m) = show_int y @ ''-'' @ padStart2 (digits (m + 1))"
| "getMonthKey InvalidDate = ''NaN-NaN''"

declare getMonthKey.simps [simp del]

text \<open>
  The first lines of \<^verbatim>\<open>calculateRollover\<close>:
  \<^verbatim>\<open>const [year, month] = targetMonthKey.split('-').map(Number);
  const prevDate = new Date(year, month - 2);
  const prevKey = getMonthKey(prevDate);\<close>
  A missing second piece is \<^verbatim>\<open>undefined\<close>, and \<^verbatim>\<open>undefined - 2\<close> is \<^verbatim>\<open>NaN\<close>.
\<close>

definition prevDate :: "string \<Rightarrow> jsdate" where
  "prevDate targetMonthKey =
     (case map Number_str (split_dash targetMonthKey) of
        year # month # _ \<Rightarrow> new_Date year (map_option (\<lambda>m. m - 2) month)
      | _ \<Rightarrow> InvalidDate)"

definition prevKey :: "string \<Rightarrow> string" where
  "prevKey targetMonthKey = getMonthKey (prevDate targetMonthKey)"

subsection \<open>The four collections\<close>

record category =
  cat_id :: string
  cat_name :: string
  limit :: real

record recurring =
  rec_id :: string
  rec_name :: string
  rec_amount :: real
  rec_categoryId :: string

record ledger =
  income :: real
  rollover :: real
  status :: string

text \<open>
  A transaction written by the expense form has no \<^verbatim>\<open>description\<close> and no
  \<^verbatim>\<open>isFixed\<close> field; \<open>None\<close> is the absent field.
\<close>

record transaction =
  tx_id :: string
  monthKey :: string
  categoryId :: string
  amount :: real
  description :: "string option"
  date :: string
  isFixed :: "bool option"

datatype view = Dashboard | Settings | AddTransaction

record app_state =
  categories :: "category list"
  recurringExpenses :: "recurring list"
  monthlyLedgers :: "string \<rightharpoonup> ledger"
  transactions :: "transaction list"
  currentDate :: jsdate
  view :: view

definition currentMonthKey :: "app_state \<Rightarrow> string" where
  "currentMonthKey st = getMonthKey (currentDate st)"

definition currentLedger :: "app_state \<Rightarrow> ledger option" where
  "currentLedger st = monthlyLedgers st (currentMonthKey st)"

subsection \<open>The rollover\<close>

text \<open>\<^verbatim>\<open>ts.reduce((acc, t) => acc + Number(t.amount), 0)\<close>.\<close>

definition sum_amounts :: "transaction list \<Rightarrow> real" where
  "sum_amounts ts = foldl (\<lambda>acc t. acc + amount t) 0 ts"

definition calculateRollover :: "app_state \<Rightarrow> string \<Rightarrow> real" where
  "calculateRollover st targetMonthKey =
     (let prevK = prevKey targetMonthKey in
      case monthlyLedgers st prevK of
        None \<Rightarrow> 0
      | Some prevLedger \<Rightarrow>
          (let prevExpenses = sum_amounts (filter (\<lambda>t. monthKey t = prevK) (transactions st));
               balance = (income prevLedger + rollover prevLedger) - prevExpenses
           in max 0 balance))"



subsection \<open>Opening a month\<close>

text \<open>
  What the surroundings give to one run of the callback of \<^verbatim>\<open>recurringExpenses.map\<close>:
  the value of \<^verbatim>\<open>Date.now()\<close>, the text of \<^verbatim>\<open>Math.random().toString()\<close> and the
  text of \<^verbatim>\<open>new Date().toISOString()\<close>. Handlers take the readings as an argument,
  one per position of the list.
\<close>

record reading =
  date_now :: int
  math_random :: string
  iso_string :: string

text \<open>\<^verbatim>\<open>Date.now() + Math.random().toString()\<close>: a number and a string concatenate.\<close>

definition auto_id :: "reading \<Rightarrow> string" where
  "auto_id r = show_int (date_now r) @ math_random r"

definition autoTransaction :: "string \<Rightarrow> reading \<Rightarrow> recurring \<Rightarrow> transaction" where
  "autoTransaction key r model =
     \<lparr> tx_id = auto_id r,
       monthKey = key,
       categoryId = rec_categoryId model,
       amount = rec_amount model,
       description = Some (rec_name model @ '' (Fixo Recorrente)''),
       date = iso_string r,
       isFixed = Some True \<rparr>"

definition autoTransactions :: "(nat \<Rightarrow> reading) \<Rightarrow> app_state \<Rightarrow> transaction list" where
  "autoTransactions env st =
     map (\<lambda>(i, model). autoTransaction (currentMonthKey st) (env i) model)
       (enumerate 0 (recurringExpenses st))"

text \<open>
  \<^verbatim>\<open>startNewMonth(incomeInput, rolloverInput)\<close>: stores the ledger under the current month
  key, appends the automated transactions and returns to the dashboard. The arguments
  are the numbers \<^verbatim>\<open>Number(incomeInput)\<close> and \<^verbatim>\<open>Number(rolloverInput)\<close>.
\<close>

definition startNewMonth :: "(nat \<Rightarrow> reading) \<Rightarrow> real \<Rightarrow> real \<Rightarrow> app_state \<Rightarrow> app_state" where
  "startNewMonth env incomeInput rolloverInput st =
     (let newLedger = \<lparr> income = incomeInput, rollover = rolloverInput, status = ''OPEN'' \<rparr>
      in st \<lparr> monthlyLedgers := (monthlyLedgers st)(currentMonthKey st \<mapsto> newLedger),
              transactions := transactions st @ autoTransactions env st,
              view := Dashboard \<rparr>)"

subsection \<open>The figures of the dashboard\<close>

definition currentTransactions :: "app_state \<Rightarrow> transaction list" where
  "currentTransactions st = filter (\<lambda>t. monthKey t = currentMonthKey st) (transactions st)"

definition getSpentByCategory :: "app_state \<Rightarrow> string \<Rightarrow> real" where
  "getSpentByCategory st cid =
     sum_amounts (filter (\<lambda>t. categoryId t = cid) (currentTransactions st))"


text \<open>
  \<^verbatim>\<open>currentLedger?.field || 0\<close>: 0 when there is no ledger (\<open>None\<close>) and when the field
  is falsy, which for a number is 0.
\<close>

definition or_zero :: "real option \<Rightarrow> real" where
  "or_zero v = (case v of None \<Rightarrow> 0 | Some x \<Rightarrow> if x = 0 then 0 else x)"



text \<open>
  The result of a division of two finite numbers may be infinite or \<^verbatim>\<open>NaN\<close>. A zero
  divisor is taken as the positive zero.
\<close>

datatype jsnum = Num real | PosInfinity | NegInfinity | NaN

definition js_div :: "real \<Rightarrow> real \<Rightarrow> jsnum" where
  "js_div a b =
     (if b = 0 then (if a = 0 then NaN else if 0 < a then PosInfinity else NegInfinity)
      else Num (a / b))"

fun js_mul :: "jsnum \<Rightarrow> real \<Rightarrow> jsnum" where
  "js_mul (Num x) c = Num (x * c)"
| "js_mul PosInfinity c = (if c = 0 then NaN else if 0 < c then PosInfinity else NegInfinity)"
| "js_mul NegInfinity c = (if c = 0 then NaN else if 0 < c then NegInfinity else PosInfinity)"
| "js_mul NaN c = NaN"

text \<open>\<^verbatim>\<open>Math.min(x, c)\<close> for a finite c: \<^verbatim>\<open>NaN\<close> if x is.\<close>

fun Math_min :: "jsnum \<Rightarrow> real \<Rightarrow> jsnum" where
  "Math_min (Num x) c = Num (min x c)"
| "Math_min PosInfinity c = Num c"
| "Math_min NegInfinity c = NegInfinity"
| "Math_min NaN c = NaN"

text \<open>
  In the list of categories of the dashboard:
  \<^verbatim>\<open>const spent = getSpentByCategory(cat.id);
  const percentage = Math.min((spent / cat.limit) * 100, 100);\<close>
\<close>

definition percentage :: "app_state \<Rightarrow> category \<Rightarrow> jsnum" where
  "percentage st cat =
     (let spent = getSpentByCategory st (cat_id cat)
      in Math_min (js_mul (js_div spent (limit cat)) 100) 100)"

subsection \<open>Screens and form handlers\<close>

text \<open>
  The component returns one of four screens, tested in this order: the setup screen when
  the current month has no ledger and the view is not the settings, the settings, the
  expense form, the dashboard.
\<close>

datatype screen = SetupScreen | SettingsScreen | AddTransactionScreen | DashboardScreen

definition screen :: "app_state \<Rightarrow> screen" where
  "screen st =
     (if currentLedger st = None \<and> view st \<noteq> Settings then SetupScreen
      else if view st = Settings then SettingsScreen
      else if view st = AddTransaction then AddTransactionScreen
      else DashboardScreen)"

text \<open>
  The form of the setup screen, the only caller of \<^verbatim>\<open>startNewMonth\<close>:
  \<^verbatim>\<open>startNewMonth(e.target.income.value, projectedRollover)\<close> with
  \<^verbatim>\<open>projectedRollover = calculateRollover(currentMonthKey)\<close>. \<open>None\<close>: the form is not
  on the screen, or the browser holds it back: the required number field of the income
  has no \<^verbatim>\<open>step\<close>, so it takes whole numbers only.
\<close>

definition submitSetup :: "(nat \<Rightarrow> reading) \<Rightarrow> real \<Rightarrow> app_state \<Rightarrow> app_state option" where
  "submitSetup env incomeValue st =
     (if screen st = SetupScreen \<and> frac incomeValue = 0
      then Some (startNewMonth env incomeValue (calculateRollover st (currentMonthKey st)) st)
      else None)"

text \<open>
  The submit handler of the expense form: it builds the transaction from the two fields
  and appends it, with no test.
\<close>

definition addTransaction :: "reading \<Rightarrow> string \<Rightarrow> real \<Rightarrow> app_state \<Rightarrow> app_state" where
  "addTransaction r categoryValue amountValue st =
     (let newTrans = \<lparr> tx_id = show_int (date_now r),
                       monthKey = currentMonthKey st,
                       categoryId = categoryValue,
                       amount = amountValue,
                       description = None,
                       date = iso_string r,
                       isFixed = None \<rparr>
      in st \<lparr> transactions := transactions st @ [newTrans], view := Dashboard \<rparr>)"

text \<open>
  The expense form as the browser lets it through: it is on the screen, the required
  \<^verbatim>\<open>select\<close> holds the id of a listed category (the empty value is the placeholder),
  and the required number field holds a multiple of its step 0.01. The field has no
  \<^verbatim>\<open>min\<close>.
\<close>

definition submitAddTransaction :: "reading \<Rightarrow> string \<Rightarrow> real \<Rightarrow> app_state \<Rightarrow> app_state option" where
  "submitAddTransaction r categoryValue amountValue st =
     (if screen st = AddTransactionScreen \<and> categoryValue \<noteq> [] \<and>
         categoryValue \<in> set (map cat_id (categories st)) \<and> frac (amountValue * 100) = 0
      then Some (addTransaction r categoryValue amountValue st)
      else None)"

subsection \<open>The arithmetic of the number type\<close>

text \<open>
  A number of the language is a binary64 floating-point number: \<^verbatim>\<open>NaN\<close>, an
  infinity, or a finite number n * 2^e with n below 2^53 in magnitude and e from -1074
  on, below 2^1024 in magnitude. The result of an addition is the exact sum rounded to
  the nearest finite number, to the one with the even n when two are equally near, and
  to an infinity when the rounded magnitude reaches 2^1024. The sign of a zero is not
  modelled: it decides no sum and no comparison below.

  \<open>round_half_even\<close> rounds a real to the nearest integer, a half to the even one.
\<close>

definition round_half_even :: "real \<Rightarrow> int" where
  "round_half_even z =
     (let f = \<lfloor>z\<rfloor>; d = z - of_int f
      in if d < 1 / 2 then f else if 1 / 2 < d then f + 1 else if even f then f else f + 1)"

text \<open>
  The rounding of a real to the number type. The magnitude is counted in units of
  2^-1074, the distance of the smallest numbers: s. The distance q of the finite numbers
  around s is 1 below 2^53 and 2^(b - 53) for an s of b bits; s is rounded to a multiple
  of q, and 2^2098 units are 2^1024.
\<close>

definition fl :: "real \<Rightarrow> jsnum" where
  "fl x =
     (let s = \<bar>x\<bar> * 2 ^ 1074;
          q = 2 ^ nat (bitlen \<lfloor>s\<rfloor> - 53);
          n = round_half_even (s / of_int q) * q
      in if 2 ^ 2098 \<le> n then (if 0 < x then PosInfinity else NegInfinity)
         else Num (sgn x * of_int n / 2 ^ 1074))"

text \<open>\<^verbatim>\<open>a + b\<close>, \<^verbatim>\<open>-a\<close>, \<^verbatim>\<open>a - b\<close> and \<^verbatim>\<open>Math.max(0, a)\<close> on numbers.\<close>

fun js_add :: "jsnum \<Rightarrow> jsnum \<Rightarrow> jsnum" where
  "js_add NaN b = NaN"
| "js_add a NaN = NaN"
| "js_add (Num a) (Num b) = fl (a + b)"
| "js_add PosInfinity NegInfinity = NaN"
| "js_add NegInfinity PosInfinity = NaN"
| "js_add PosInfinity b = PosInfinity"
| "js_add a PosInfinity = PosInfinity"
| "js_add NegInfinity b = NegInfinity"
| "js_add a NegInfinity = NegInfinity"

fun js_neg :: "jsnum \<Rightarrow> jsnum" where
  "js_neg (Num a) = Num (- a)"
| "js_neg PosInfinity = NegInfinity"
| "js_neg NegInfinity = PosInfinity"
| "js_neg NaN = NaN"

definition js_sub :: "jsnum \<Rightarrow> jsnum \<Rightarrow> jsnum" where
  "js_sub a b = js_add a (js_neg b)"

fun Math_max0 :: "jsnum \<Rightarrow> jsnum" where
  "Math_max0 (Num a) = Num (max 0 a)"
| "Math_max0 PosInfinity = PosInfinity"
| "Math_max0 NegInfinity = Num 0"
| "Math_max0 NaN = NaN"

text \<open>
  The sums and the rollover as the code computes them, in this arithmetic. The numbers
  held by the ledgers and the transactions are finite.
  \<^verbatim>\<open>ts.reduce((acc, t) => acc + Number(t.amount), 0)\<close>:
\<close>

definition sum_amounts_f64 :: "transaction list \<Rightarrow> jsnum" where
  "sum_amounts_f64 ts = foldl (\<lambda>acc t. js_add acc (Num (amount t))) (Num 0) ts"

definition calculateRollover_f64 :: "app_state \<Rightarrow> string \<Rightarrow> jsnum" where
  "calculateRollover_f64 st targetMonthKey =
     (let prevK = prevKey targetMonthKey in
      case monthlyLedgers st prevK of
        None \<Rightarrow> Num 0
      | Some prevLedger \<Rightarrow>
          (let prevExpenses = sum_amounts_f64 (filter (\<lambda>t. monthKey t = prevK) (transactions st));
               balance = js_sub (js_add (Num (income prevLedger)) (Num (rollover prevLedger)))
                           prevExpenses
           in Math_max0 balance))"

definition getSpentByCategory_f64 :: "app_state \<Rightarrow> string \<Rightarrow> jsnum" where
  "getSpentByCategory_f64 st cid =
     sum_amounts_f64 (filter (\<lambda>t. categoryId t = cid) (currentTransactions st))"

definition totalSpent_f64 :: "app_state \<Rightarrow> jsnum" where
  "totalSpent_f64 st = sum_amounts_f64 (currentTransactions st)"

definition totalAvailable_f64 :: "app_state \<Rightarrow> jsnum" where
  "totalAvailable_f64 st =
     js_add (Num (or_zero (map_option income (currentLedger st))))
       (Num (or_zero (map_option rollover (currentLedger st))))"

definition remainingBalance_f64 :: "app_state \<Rightarrow> jsnum" where
  "remainingBalance_f64 st = js_sub (totalAvailable_f64 st) (totalSpent_f64 st)"

text \<open>
  The percentage of the progress bar in this arithmetic: a quotient and a product are
  the exact ones rounded. A zero divisor is taken as the positive zero.
  \<^verbatim>\<open>Math.min((spent / cat.limit) * 100, 100)\<close>:
\<close>

fun js_div_f64 :: "jsnum \<Rightarrow> real \<Rightarrow> jsnum" where
  "js_div_f64 (Num a) b =
     (if b = 0 then (if a = 0 then NaN else if 0 < a then PosInfinity else NegInfinity)
      else fl (a / b))"
| "js_div_f64 PosInfinity b = (if 0 \<le> b then PosInfinity else NegInfinity)"
| "js_div_f64 NegInfinity b = (if 0 \<le> b then NegInfinity else PosInfinity)"
| "js_div_f64 NaN b = NaN"

fun js_mul_f64 :: "jsnum \<Rightarrow> real \<Rightarrow> jsnum" where
  "js_mul_f64 (Num x) c = fl (x * c)"
| "js_mul_f64 PosInfinity c = (if c = 0 then NaN else if 0 < c then PosInfinity else NegInfinity)"
| "js_mul_f64 NegInfinity c = (if c = 0 then NaN else if 0 < c then NegInfinity else PosInfinity)"
| "js_mul_f64 NaN c = NaN"

definition percentage_f64 :: "app_state \<Rightarrow> category \<Rightarrow> jsnum" where
  "percentage_f64 st cat =
     (let spent = getSpentByCategory_f64 st (cat_id cat)
      in Math_min (js_mul_f64 (js_div_f64 spent (limit cat)) 100) 100)"

text \<open>
  The sum of the spending of every registered category, added up in the same
  arithmetic in the order of the registry.
\<close>

definition spent_over_categories_f64 :: "app_state \<Rightarrow> jsnum" where
  "spent_over_categories_f64 st =
     foldl (\<lambda>acc c. js_add acc (getSpentByCategory_f64 st (cat_id c))) (Num 0) (categories st)"

text \<open>
  The numbers of a list are whole and the sum of their magnitudes is below 2^53, that is,
  within the safe integers of the language.
\<close>

definition whole_amounts :: "real list \<Rightarrow> bool" where
  "whole_amounts xs = (list_all (\<lambda>x. frac x = 0) xs \<and> sum_list (map abs xs) < 2 ^ 53)"

subsection \<open>Reads\<close>

text \<open>
  The component as a store that its functions read and write: the state behind the
  \<^verbatim>\<open>useState\<close> hooks, and the cell of the one \<^verbatim>\<open>useMemo\<close> hook, which holds the
  dependencies and the value of its last computation. A function of the component is a
  computation in the state monad over this store; \<open>read_state\<close> reads a part of the
  state and \<open>set_state\<close> is what the setters \<^verbatim>\<open>setTransactions\<close>,
  \<^verbatim>\<open>setMonthlyLedgers\<close>, ... do.
\<close>

record component =
  state :: app_state
  memo :: "((transaction list \<times> string) \<times> transaction list) option"

definition read_state :: "(app_state \<Rightarrow> 'a) \<Rightarrow> (component, 'a) state" where
  "read_state f = do { c \<leftarrow> State_Monad.get; State_Monad.return (f (state c)) }"

definition set_state :: "(app_state \<Rightarrow> app_state) \<Rightarrow> (component, unit) state" where
  "set_state f = State_Monad.update (\<lambda>c. c \<lparr> state := f (state c) \<rparr>)"

text \<open>\<^verbatim>\<open>calculateRollover\<close> as it runs in the component, line by line.\<close>

definition calculateRollover_m :: "string \<Rightarrow> (component, jsnum) state" where
  "calculateRollover_m targetMonthKey = do {
     let prevK = prevKey targetMonthKey;
     ledgers \<leftarrow> read_state monthlyLedgers;
     case ledgers prevK of
       None \<Rightarrow> State_Monad.return (Num 0)
     | Some prevLedger \<Rightarrow> do {
         ts \<leftarrow> read_state transactions;
         let prevExpenses = sum_amounts_f64 (filter (\<lambda>t. monthKey t = prevK) ts);
         let balance = js_sub (js_add (Num (income prevLedger)) (Num (rollover prevLedger)))
                         prevExpenses;
         State_Monad.return (Math_max0 balance)
       }
   }"

text \<open>
  \<^verbatim>\<open>useMemo(factory, deps)\<close>: the value of the cell when the cell holds these
  dependencies; otherwise the factory is called and the cell is written. The library
  compares each dependency with \<^verbatim>\<open>Object.is\<close>, the identity of the array and the
  equality of the key; here the arrays are compared by their contents.
\<close>

definition cached :: "component \<Rightarrow> transaction list \<times> string \<Rightarrow> transaction list option" where
  "cached c deps =
     (case memo c of
        None \<Rightarrow> None
      | Some (deps', value) \<Rightarrow> if deps' = deps then Some value else None)"

definition useMemo ::
  "(unit \<Rightarrow> transaction list) \<Rightarrow> transaction list \<times> string \<Rightarrow> (component, transaction list) state"
where
  "useMemo factory deps = do {
     c \<leftarrow> State_Monad.get;
     case cached c deps of
       Some value \<Rightarrow> State_Monad.return value
     | None \<Rightarrow> do {
         let value = factory ();
         State_Monad.update (\<lambda>c. c \<lparr> memo := Some (deps, value) \<rparr>);
         State_Monad.return value
       }
   }"

text \<open>
  \<^verbatim>\<open>const currentTransactions = useMemo(() => {
    return transactions.filter(t => t.monthKey === currentMonthKey);
  }, [transactions, currentMonthKey]);\<close>
\<close>

definition currentTransactions_m :: "(component, transaction list) state" where
  "currentTransactions_m = do {
     ts \<leftarrow> read_state transactions;
     key \<leftarrow> read_state currentMonthKey;
     useMemo (\<lambda>_. filter (\<lambda>t. monthKey t = key) ts) (ts, key)
   }"

text \<open>
  The figures one pass of the component computes: the three totals and, for each
  category in the order of the registry, its id, spending, limit and percentage.
\<close>

record figures =
  fig_totalSpent :: jsnum
  fig_totalAvailable :: jsnum
  fig_remainingBalance :: jsnum
  fig_perCategory :: "(string \<times> jsnum \<times> real \<times> jsnum) list"

definition figures_m :: "(component, figures) state" where
  "figures_m = do {
     current \<leftarrow> currentTransactions_m;
     let spentBy = (\<lambda>cid. sum_amounts_f64 (filter (\<lambda>t. categoryId t = cid) current));
     let total = sum_amounts_f64 current;
     l \<leftarrow> read_state currentLedger;
     let available = js_add (Num (or_zero (map_option income l)))
                       (Num (or_zero (map_option rollover l)));
     let remaining = js_sub available total;
     cats \<leftarrow> read_state categories;
     State_Monad.return
       \<lparr> fig_totalSpent = total,
         fig_totalAvailable = available,
         fig_remainingBalance = remaining,
         fig_perCategory =
           map (\<lambda>cat. let spent = spentBy (cat_id cat);
                           pct = Math_min (js_mul_f64 (js_div_f64 spent (limit cat)) 100) 100
                       in (cat_id cat, spent, limit cat, pct))
             cats \<rparr>
   }"

text \<open>A computation run twice in a row, with nothing between the two runs.\<close>

definition twice :: "(component, 'a) state \<Rightarrow> (component, 'a \<times> 'a) state" where
  "twice m = do { a \<leftarrow> m; b \<leftarrow> m; State_Monad.return (a, b) }"

text \<open>
  The cell holds what a call of the factory stored: the transactions of its
  dependencies that are tagged with the key of its dependencies. The empty cell of the
  first pass does, and every pass and every setter keeps it so.
\<close>

definition memo_valid :: "component \<Rightarrow> bool" where
  "memo_valid c =
     (case memo c of
        None \<Rightarrow> True
      | Some ((ts, key), value) \<Rightarrow> value = filter (\<lambda>t. monthKey t = key) ts)"

text \<open>The figures as functions of the state, the reference for those of a pass.\<close>

definition figures_of :: "app_state \<Rightarrow> figures" where
  "figures_of st =
     \<lparr> fig_totalSpent = totalSpent_f64 st,
       fig_totalAvailable = totalAvailable_f64 st,
       fig_remainingBalance = remainingBalance_f64 st,
       fig_perCategory =
         map (\<lambda>cat. (cat_id cat, getSpentByCategory_f64 st (cat_id cat), limit cat,
                percentage_f64 st cat))
           (categories st) \<rparr>"

subsection \<open>Example states\<close>

definition ex_categories :: "category list" where
  "ex_categories =
     [\<lparr> cat_id = ''101'', cat_name = ''Moradia'', limit = 1500 \<rparr>,
      \<lparr> cat_id = ''102'', cat_name = ''Mercado'', limit = 200 \<rparr>,
      \<lparr> cat_id = ''103'', cat_name = ''Reserva'', limit = 0 \<rparr>]"

text \<open>Two templates that share the category and the amount.\<close>

definition ex_recurring :: "recurring list" where
  "ex_recurring =
     [\<lparr> rec_id = ''201'', rec_name = ''Aluguel'', rec_amount = 1200, rec_categoryId = ''101'' \<rparr>,
      \<lparr> rec_id = ''202'', rec_name = ''Garagem'', rec_amount = 1200, rec_categoryId = ''101'' \<rparr>]"

definition ex_transactions :: "transaction list" where
  "ex_transactions =
     [\<lparr> tx_id = ''301'', monthKey = ''2025-10'', categoryId = ''101'', amount = 1200,
        description = Some ''Aluguel (Fixo Recorrente)'', date = ''2025-10-01T12:00:00.000Z'',
        isFixed = Some True \<rparr>,
      \<lparr> tx_id = ''302'', monthKey = ''2025-10'', categoryId = ''102'', amount = 1300,
        description = None, date = ''2025-10-09T12:00:00.000Z'', isFixed = None \<rparr>]"

text \<open>
  October 2025 is open with the given income and no rollover, and 2500 was spent in it;
  the date and the view on the screen are arguments.
\<close>

definition ex_state :: "real \<Rightarrow> jsdate \<Rightarrow> view \<Rightarrow> app_state" where
  "ex_state inc d v =
     \<lparr> categories = ex_categories,
       recurringExpenses = ex_recurring,
       monthlyLedgers = [''2025-10'' \<mapsto> \<lparr> income = inc, rollover = 0, status = ''OPEN'' \<rparr>],
       transactions = ex_transactions,
       currentDate = d,
       view = v \<rparr>"

text \<open>No category is registered, and one transaction of October 2025 is in the log.\<close>

definition ex_orphan :: app_state where
  "ex_orphan =
     \<lparr> categories = [],
       recurringExpenses = [],
       monthlyLedgers = [''2025-10'' \<mapsto> \<lparr> income = 3000, rollover = 0, status = ''OPEN'' \<rparr>],
       transactions = [hd ex_transactions],
       currentDate = Date 2025 9,
       view = Dashboard \<rparr>"

definition ex_env :: "nat \<Rightarrow> reading" where
  "ex_env i =
     \<lparr> date_now = 1762000000000, math_random = ''0.'' @ digits (i + 1),
       iso_string = ''2025-11-01T12:26:40.000Z'' \<rparr>"




text \<open>
  Amounts in cents. The numbers nearest to 0.1, 0.2 and 0.4, which \<^verbatim>\<open>Number\<close> gives
  for these texts, are 3602879701896397 / 2^55, / 2^54 and / 2^53. Three transactions
  of October 2025: 0.1 and 0.4 in the first category, 0.2 in the second.
\<close>

definition ex_cents :: app_state where
  "ex_cents =
     \<lparr> categories = take 2 ex_categories,
       recurringExpenses = [],
       monthlyLedgers = [''2025-10'' \<mapsto> \<lparr> income = 3000, rollover = 0, status = ''OPEN'' \<rparr>],
       transactions =
         [\<lparr> tx_id = ''301'', monthKey = ''2025-10'', categoryId = ''101'',
            amount = 3602879701896397 / 36028797018963968,
            description = None, date = ''2025-10-01T12:00:00.000Z'', isFixed = None \<rparr>,
          \<lparr> tx_id = ''302'', monthKey = ''2025-10'', categoryId = ''102'',
            amount = 3602879701896397 / 18014398509481984,
            description = None, date = ''2025-10-02T12:00:00.000Z'', isFixed = None \<rparr>,
          \<lparr> tx_id = ''303'', monthKey = ''2025-10'', categoryId = ''101'',
            amount = 3602879701896397 / 9007199254740992,
            description = None, date = ''2025-10-03T12:00:00.000Z'', isFixed = None \<rparr>],
       currentDate = Date 2025 9,
       view = Dashboard \<rparr>"

text \<open>Readings that give the same clock value and the same random draw at every turn.\<close>

definition ex_env_same :: "nat \<Rightarrow> reading" where
  "ex_env_same i =
     \<lparr> date_now = 1762000000000, math_random = ''0.5'',
       iso_string = ''2025-11-01T12:26:40.000Z'' \<rparr>"

text \<open>The component at its first pass over the example state: the cell is empty.\<close>

definition ex_component :: "jsdate \<Rightarrow> component" where
  "ex_component d = \<lparr> state = ex_state 3000 d Dashboard, memo = None \<rparr>"

section \<open>Properties\<close>

subsection \<open>Month keys\<close>


lemma digit_char_simps:
  "digit_char 0 = CHR ''0''" "digit_char 1 = CHR ''1''" "digit_char 2 = CHR ''2''"
  "digit_char 3 = CHR ''3''" "digit_char 4 = CHR ''4''" "digit_char 5 = CHR ''5''"
  "digit_char 6 = CHR ''6''" "digit_char 7 = CHR ''7''" "digit_char 8 = CHR ''8''"
  "digit_char 9 = CHR ''9''" "digit_char (Suc 0) = CHR ''1''"
  "digit_char (Suc (Suc 0)) = CHR ''2''"
  by (simp_all add: digit_char_def char_of_eq_iff)

text \<open>The equations that evaluate the key of a given date.\<close>

lemmas eval_key = getMonthKey.simps show_int_def digits.simps padStart2_def digit_char_simps

















lemma key_2025_10: "getMonthKey (Date 2025 9) = ''2025-10''"
  by (simp add: eval_key)

lemma key_2025_11: "getMonthKey (Date 2025 10) = ''2025-11''"
  by (simp add: eval_key)













lemmas eval_prevKey = prevKey_def prevDate_def Number_str_def is_digit_def digit_val_def
  new_Date_def eval_key




subsection \<open>Rounding\<close>

lemma round_half_even_of_int: "round_half_even (of_int k) = k"
  by (simp add: round_half_even_def)

lemma fl_exact_units:
  assumes s: "\<bar>x\<bar> * 2 ^ 1074 = of_int m"
    and d: "2 ^ nat (bitlen m - 53) dvd m"
    and o: "m < 2 ^ 2098"
  shows "fl x = Num x"
proof -
  obtain c where c: "m = 2 ^ nat (bitlen m - 53) * c"
    using d by (auto simp: dvd_def)
  have "real_of_int m / of_int (2 ^ nat (bitlen m - 53)) = of_int c"
    by (subst c) simp
  then have r: "round_half_even (real_of_int m / of_int (2 ^ nat (bitlen m - 53))) * 2 ^ nat (bitlen m - 53) = m"
    using c by (simp add: round_half_even_of_int mult.commute)
  have "sgn x * \<bar>x\<bar> = x"
    by (simp add: sgn_mult_abs)
  moreover have "\<bar>x\<bar> = of_int m / 2 ^ 1074"
    using s by (simp add: field_simps)
  ultimately have v: "sgn x * of_int m / 2 ^ 1074 = x"
    by simp
  show ?thesis
    unfolding fl_def s using r o v by (simp add: Let_def)
qed

lemma fl_of_int:
  assumes "\<bar>i\<bar> < 2 ^ 53"
  shows "fl (of_int i) = Num (of_int i)"
proof (rule fl_exact_units [where m = "\<bar>i\<bar> * 2 ^ 1074"])
  show "\<bar>real_of_int i\<bar> * 2 ^ 1074 = real_of_int (\<bar>i\<bar> * 2 ^ 1074)"
    by simp
  have "\<bar>i\<bar> * 2 ^ 1074 \<le> 2 ^ 53 * 2 ^ 1074"
    using assms by (intro mult_right_mono) auto
  also have "\<dots> < (2 ^ 2098 :: int)"
    by (simp flip: power_add)
  finally show "\<bar>i\<bar> * 2 ^ 1074 < 2 ^ 2098" .
  show "2 ^ nat (bitlen (\<bar>i\<bar> * 2 ^ 1074) - 53) dvd \<bar>i\<bar> * 2 ^ 1074"
  proof (cases "i = 0")
    case True
    then show ?thesis by simp
  next
    case False
    then have "0 < \<bar>i\<bar>" by simp
    then have "bitlen (\<bar>i\<bar> * 2 ^ 1074) = bitlen \<bar>i\<bar> + int 1074"
      by (rule bitlen_pow2)
    then have b: "bitlen (\<bar>i\<bar> * 2 ^ 1074) = bitlen \<bar>i\<bar> + 1074"
      by simp
    have "bitlen \<bar>i\<bar> \<le> 53"
      using assms by (simp add: bitlen_le_iff_power)
    then have "nat (bitlen \<bar>i\<bar> + 1074 - 53) \<le> 1074"
      by simp
    then have "(2::int) ^ nat (bitlen \<bar>i\<bar> + 1074 - 53) dvd 2 ^ 1074"
      by (rule le_imp_power_dvd)
    then show ?thesis
      unfolding b by (rule dvd_mult)
  qed
qed

lemma fl_whole:
  assumes "frac x = 0" and "\<bar>x\<bar> < 2 ^ 53"
  shows "fl x = Num x"
proof -
  from assms(1) obtain i where x: "x = of_int i"
    by (metis frac_eq_0_iff Ints_cases)
  have "real_of_int \<bar>i\<bar> < real_of_int (2 ^ 53)"
    using assms(2) unfolding x by simp
  then have "\<bar>i\<bar> < 2 ^ 53"
    by (simp only: of_int_less_iff)
  then show ?thesis
    unfolding x by (rule fl_of_int)
qed

text \<open>A sum of whole numbers within the safe integers is exact.\<close>

lemma foldl_js_add_whole:
  assumes "frac a = 0" and "\<forall>x \<in> set xs. frac (g x) = 0"
    and "\<bar>a\<bar> + sum_list (map (\<lambda>x. \<bar>g x\<bar>) xs) < 2 ^ 53"
  shows "foldl (\<lambda>acc x. js_add acc (Num (g x))) (Num a) xs = Num (a + sum_list (map g xs))"
  using assms
proof (induction xs arbitrary: a)
  case Nil
  then show ?case by simp
next
  case (Cons x xs)
  have w: "frac (a + g x) = 0"
    using Cons.prems(1,2) by (simp add: frac_eq_0_iff)
  have b: "\<bar>a + g x\<bar> + sum_list (map (\<lambda>x. \<bar>g x\<bar>) xs) < 2 ^ 53"
    using Cons.prems(3) by (simp add: abs_if split: if_splits)
  have "sum_list (map (\<lambda>x. \<bar>g x\<bar>) xs) \<ge> 0"
    by (rule sum_list_nonneg) auto
  with b have "\<bar>a + g x\<bar> < 2 ^ 53"
    by linarith
  with w have "fl (a + g x) = Num (a + g x)"
    by (rule fl_whole)
  then have "foldl (\<lambda>acc x. js_add acc (Num (g x))) (Num a) (x # xs)
      = foldl (\<lambda>acc x. js_add acc (Num (g x))) (Num (a + g x)) xs"
    by simp
  also have "\<dots> = Num (a + g x + sum_list (map g xs))"
    using w Cons.prems(2) b by (intro Cons.IH) auto
  finally show ?case by (simp add: add.assoc)
qed




lemma bitlen_eqI:
  assumes "2 ^ b \<le> c" and "c < 2 ^ Suc b"
  shows "bitlen c = int (Suc b)"
proof (rule antisym)
  show "bitlen c \<le> int (Suc b)"
    using assms(2) by (simp only: bitlen_le_iff_power nat_int) simp
  have "2 ^ (nat (int (Suc b)) - 1) \<le> c"
    using assms(1) by (simp only: nat_int diff_Suc_1)
  then show "int (Suc b) \<le> bitlen c"
    by (simp only: bitlen_ge_iff_power simp_thms)
qed

text \<open>A positive multiple of 2^-j of at most 53 bits is a number of the type.\<close>

lemma fl_frac_exact:
  assumes c: "0 < c" and b: "bitlen c \<le> 53" and j: "j \<le> 1074"
  shows "fl (of_int c / 2 ^ j) = Num (of_int c / 2 ^ j)"
proof (rule fl_exact_units [where m = "c * 2 ^ (1074 - j)"])
  have p: "(2::real) ^ 1074 = 2 ^ (1074 - j) * 2 ^ j"
    using j by (simp only: power_add [symmetric] le_add_diff_inverse2)
  have "real_of_int c / 2 ^ j * 2 ^ 1074 = real_of_int c * 2 ^ (1074 - j)"
    unfolding p by simp
  moreover have "\<bar>real_of_int c / 2 ^ j\<bar> = real_of_int c / 2 ^ j"
    using c by (simp only: abs_of_pos divide_pos_pos of_int_0_less_iff zero_less_power
        zero_less_numeral)
  ultimately show "\<bar>real_of_int c / 2 ^ j\<bar> * 2 ^ 1074 = real_of_int (c * 2 ^ (1074 - j))"
    by (simp only: of_int_mult of_int_power of_int_numeral)
  have bl: "bitlen (c * 2 ^ (1074 - j)) = bitlen c + int (1074 - j)"
    using c by (rule bitlen_pow2)
  have "nat (bitlen c + int (1074 - j) - 53) \<le> 1074 - j"
    using b by linarith
  then have "(2::int) ^ nat (bitlen c + int (1074 - j) - 53) dvd 2 ^ (1074 - j)"
    by (rule le_imp_power_dvd)
  then show "2 ^ nat (bitlen (c * 2 ^ (1074 - j)) - 53) dvd c * 2 ^ (1074 - j)"
    unfolding bl by (rule dvd_mult)
  have "c < 2 ^ nat 53"
    using b by (simp only: bitlen_le_iff_power)
  then have "c < 2 ^ 53"
    by simp
  then have "c * 2 ^ (1074 - j) < 2 ^ 53 * 2 ^ (1074 - j)"
    by (rule mult_strict_right_mono) simp
  also have "\<dots> = (2::int) ^ (53 + (1074 - j))"
    by (simp only: power_add)
  also have "\<dots> < 2 ^ 2098"
    by (rule power_strict_increasing) simp_all
  finally show "c * 2 ^ (1074 - j) < 2 ^ 2098" .
qed

text \<open>
  A positive multiple of 2^-j of 53 + r bits rounds to 53 bits: its last r bits are
  rounded away.
\<close>

lemma fl_frac_round:
  assumes c: "0 < c" and b: "bitlen c = 53 + int r" and j: "j \<le> 1074"
    and n: "round_half_even (of_int c / 2 ^ r) = n"
    and o: "53 + r + (1074 - j) \<le> 2097"
  shows "fl (of_int c / 2 ^ j) = Num (of_int n * 2 ^ r / 2 ^ j)"
proof -
  define k where "k = 1074 - j"
  have p: "(2::real) ^ 1074 = 2 ^ k * 2 ^ j"
    unfolding k_def using j by (simp only: power_add [symmetric] le_add_diff_inverse2)
  have pos: "0 < real_of_int c / 2 ^ j"
    using c by (simp only: divide_pos_pos of_int_0_less_iff zero_less_power zero_less_numeral)
  have "real_of_int c / 2 ^ j * 2 ^ 1074 = real_of_int c * 2 ^ k"
    unfolding p by simp
  then have s: "\<bar>real_of_int c / 2 ^ j\<bar> * 2 ^ 1074 = real_of_int (c * 2 ^ k)"
    using pos by (simp only: abs_of_pos of_int_mult of_int_power of_int_numeral)
  have "bitlen (c * 2 ^ k) = bitlen c + int k"
    using c by (rule bitlen_pow2)
  then have e: "nat (bitlen (c * 2 ^ k) - 53) = r + k"
    unfolding b by linarith
  have "real_of_int (c * 2 ^ k) / real_of_int (2 ^ (r + k)) = real_of_int c / 2 ^ r"
    by (simp add: power_add)
  then have q: "round_half_even (real_of_int (c * 2 ^ k) / real_of_int (2 ^ (r + k))) = n"
    using n by simp
  have ub: "c < 2 ^ (53 + r)"
    using bitlen_bounds [OF c] unfolding b by (simp add: nat_add_distrib)
  text \<open>The rounded value is at most 2^53, so the result stays finite.\<close>
  have "real_of_int c / 2 ^ r < 2 ^ 53"
    using ub by (simp add: pos_divide_less_eq power_add flip: of_int_less_iff [where 'a = real])
  then have "\<lfloor>real_of_int c / 2 ^ r\<rfloor> < 2 ^ 53"
    by (simp add: floor_less_iff)
  then have "n \<le> 2 ^ 53"
    using n by (auto simp: round_half_even_def Let_def split: if_splits)
  then have "n * 2 ^ (r + k) \<le> 2 ^ 53 * 2 ^ (r + k)"
    by (rule mult_right_mono) simp
  also have "\<dots> = (2::int) ^ (53 + r + k)"
    by (simp only: power_add mult.assoc)
  also have "\<dots> \<le> 2 ^ 2097"
    using o unfolding k_def by (intro power_increasing) simp_all
  also have "\<dots> < (2::int) ^ 2098"
    by (rule power_strict_increasing) simp_all
  finally have fin: "\<not> 2 ^ 2098 \<le> n * 2 ^ (r + k)"
    by (simp only: not_le)
  have "sgn (real_of_int c / 2 ^ j) = 1"
    using c by simp
  moreover have "real_of_int (n * 2 ^ (r + k)) / 2 ^ 1074 = real_of_int n * 2 ^ r / 2 ^ j"
    unfolding p by (simp add: power_add)
  ultimately show ?thesis
    unfolding fl_def s Let_def floor_of_int e q using fin by (simp only: if_False mult_1)
qed

lemma fl_zero: "fl 0 = Num 0"
  using fl_of_int [of 0] by simp





text \<open>The three sums of the example in cents.\<close>

lemma bitlen_c1: "bitlen 3602879701896397 = 52"
  using bitlen_eqI [of 51 3602879701896397] by simp

lemma fl_tenth: "fl (3602879701896397 / 36028797018963968) = Num (3602879701896397 / 36028797018963968)"
  using fl_frac_exact [of 3602879701896397 55] by (simp add: bitlen_c1)

lemma fl_fifth: "fl (3602879701896397 / 18014398509481984) = Num (3602879701896397 / 18014398509481984)"
  using fl_frac_exact [of 3602879701896397 54] by (simp add: bitlen_c1)

lemma fl_half: "fl (1 / 2) = Num (1 / 2)"
  using fl_frac_exact [of 1 1] by (simp add: bitlen_alt_def)

text \<open>0.1 + 0.2 is rounded up to 0.30000000000000004.\<close>

lemma fl_tenth_fifth:
  "fl (10808639105689191 / 36028797018963968) = Num (1351079888211149 / 4503599627370496)"
proof -
  have b: "bitlen 10808639105689191 = 53 + int 1"
    using bitlen_eqI [of 53 10808639105689191] by simp
  have r: "round_half_even (real_of_int 10808639105689191 / 2 ^ 1) = 5404319552844596"
    by (simp add: round_half_even_def Let_def)
  show ?thesis
    using fl_frac_round [of 10808639105689191 1 55 5404319552844596, OF _ b _ r] by simp
qed

text \<open>0.30000000000000004 + 0.4 is 0.7000000000000001, with no rounding.\<close>

lemma fl_total: "fl (6305039478318695 / 9007199254740992) = Num (6305039478318695 / 9007199254740992)"
proof -
  have b: "bitlen 6305039478318695 = 53"
    using bitlen_eqI [of 52 6305039478318695] by simp
  show ?thesis
    using fl_frac_exact [of 6305039478318695 53] by (simp add: b)
qed

text \<open>0.1 + 0.4 is rounded down to 0.5.\<close>

lemma fl_tenth_two_fifths:
  "fl (18014398509481985 / 36028797018963968) = Num (1 / 2)"
proof -
  have b: "bitlen 18014398509481985 = 53 + int 2"
    using bitlen_eqI [of 54 18014398509481985] by simp
  have r: "round_half_even (real_of_int 18014398509481985 / 2 ^ 2) = 4503599627370496"
    by (simp add: round_half_even_def Let_def)
  show ?thesis
    using fl_frac_round [of 18014398509481985 2 55 4503599627370496, OF _ b _ r] by simp
qed

text \<open>0.5 + 0.2 is rounded down to 0.7.\<close>

lemma fl_half_fifth:
  "fl (12610078956637389 / 18014398509481984) = Num (3152519739159347 / 4503599627370496)"
proof -
  have b: "bitlen 12610078956637389 = 53 + int 1"
    using bitlen_eqI [of 53 12610078956637389] by simp
  have r: "round_half_even (real_of_int 12610078956637389 / 2 ^ 1) = 6305039478318694"
    by (simp add: round_half_even_def Let_def)
  show ?thesis
    using fl_frac_round [of 12610078956637389 1 54 6305039478318694, OF _ b _ r] by simp
qed

lemmas fl_cents = fl_zero fl_tenth fl_fifth fl_half fl_tenth_fifth fl_total fl_tenth_two_fifths
  fl_half_fifth

lemma ex_cents_current: "currentTransactions ex_cents = transactions ex_cents"
proof -
  have "currentMonthKey ex_cents = ''2025-10''"
    by (simp add: currentMonthKey_def ex_cents_def key_2025_10)
  then show ?thesis
    unfolding currentTransactions_def by (simp add: ex_cents_def)
qed

lemma ex_cents_total:
  "totalSpent_f64 ex_cents = Num (6305039478318695 / 9007199254740992)"
  unfolding totalSpent_f64_def ex_cents_current
  by (simp add: ex_cents_def sum_amounts_f64_def fl_cents)

lemma ex_cents_by_category:
  "spent_over_categories_f64 ex_cents = Num (3152519739159347 / 4503599627370496)"
  unfolding spent_over_categories_f64_def getSpentByCategory_f64_def ex_cents_current
  by (simp add: ex_cents_def ex_categories_def sum_amounts_f64_def fl_cents)

subsection \<open>The rollover\<close>

lemma sum_amounts_eq: "sum_amounts ts = sum_list (map amount ts)"
proof -
  have "foldl (\<lambda>acc t. acc + amount t) a ts = a + sum_list (map amount ts)" for a
    by (induction ts arbitrary: a) simp_all
  then show ?thesis by (simp add: sum_amounts_def)
qed



lemma whole_amounts_Cons:
  "whole_amounts (x # xs) \<longleftrightarrow> frac x = 0 \<and> list_all (\<lambda>x. frac x = 0) xs \<and> \<bar>x\<bar> + sum_list (map abs xs) < 2 ^ 53"
  by (auto simp: whole_amounts_def)

lemma sum_list_abs_nonneg: "0 \<le> sum_list (map abs (xs :: real list))"
  by (rule sum_list_nonneg) auto

lemma sum_amounts_f64_whole:
  assumes "whole_amounts (map amount ts)"
  shows "sum_amounts_f64 ts = Num (sum_list (map amount ts))"
proof -
  have "foldl (\<lambda>acc t. js_add acc (Num (amount t))) (Num 0) ts = Num (0 + sum_list (map amount ts))"
    using assms by (intro foldl_js_add_whole) (simp_all add: whole_amounts_def list_all_iff comp_def)
  then show ?thesis
    by (simp add: sum_amounts_f64_def)
qed

lemma frac_sum_list:
  assumes "list_all (\<lambda>x. frac x = 0) (xs :: real list)"
  shows "frac (sum_list xs) = 0"
  using assms by (induction xs) (simp_all add: frac_eq_0_iff)

lemma abs_sum_list_le: "\<bar>sum_list (xs :: real list)\<bar> \<le> sum_list (map abs xs)"
proof (induction xs)
  case Nil
  then show ?case by simp
next
  case (Cons a xs)
  have "\<bar>a + sum_list xs\<bar> \<le> \<bar>a\<bar> + \<bar>sum_list xs\<bar>"
    by (rule abs_triangle_ineq)
  with Cons show ?case by simp
qed

text \<open>
  With whole numbers within the safe integers, the rollover of the code is the
  rollover in exact arithmetic.
\<close>

lemma rollover_whole:
  assumes "whole_amounts (inc # roll # map amount ts)"
  shows "Math_max0 (js_sub (js_add (Num inc) (Num roll)) (sum_amounts_f64 ts))
       = Num (max 0 ((inc + roll) - sum_list (map amount ts)))"
proof -
  let ?S = "sum_list (map amount ts)"
  let ?A = "sum_list (map abs (map amount ts))"
  have w: "frac inc = 0" "frac roll = 0" "list_all (\<lambda>x. frac x = 0) (map amount ts)"
    and b: "\<bar>inc\<bar> + (\<bar>roll\<bar> + ?A) < 2 ^ 53"
    using assms by (simp_all add: whole_amounts_Cons)
  have A: "0 \<le> ?A"
    by (rule sum_list_abs_nonneg)
  have S: "\<bar>?S\<bar> \<le> ?A"
    by (rule abs_sum_list_le)
  have "?A < 2 ^ 53"
    using b by linarith
  with w(3) have "whole_amounts (map amount ts)"
    unfolding whole_amounts_def by simp
  then have s: "sum_amounts_f64 ts = Num ?S"
    by (rule sum_amounts_f64_whole)
  have "frac (inc + roll) = 0" "\<bar>inc + roll\<bar> < 2 ^ 53"
    using w(1,2) b A by (simp add: frac_eq_0_iff, linarith)
  then have a: "js_add (Num inc) (Num roll) = Num (inc + roll)"
    by (simp add: fl_whole)
  have "frac ?S = 0"
    using w(3) by (rule frac_sum_list)
  then have "frac (inc + roll + - ?S) = 0" "\<bar>inc + roll + - ?S\<bar> < 2 ^ 53"
    using w(1,2) b S by (simp add: frac_eq_0_iff, linarith)
  then have "js_sub (Num (inc + roll)) (Num ?S) = Num (inc + roll + - ?S)"
    by (simp add: js_sub_def fl_whole)
  then show ?thesis
    unfolding a s by simp
qed





subsection \<open>Opening a month\<close>

lemma length_autoTransactions: "length (autoTransactions env st) = length (recurringExpenses st)"
  by (simp add: autoTransactions_def)

lemma nth_autoTransactions:
  "i < length (recurringExpenses st) \<Longrightarrow>
   autoTransactions env st ! i = autoTransaction (currentMonthKey st) (env i) (recurringExpenses st ! i)"
  by (simp add: autoTransactions_def nth_enumerate_eq)

lemma map_tx_id_autoTransactions:
  "map tx_id (autoTransactions env st) = map (\<lambda>i. auto_id (env i)) [0..<length (recurringExpenses st)]"
  by (rule nth_equalityI) (simp_all add: length_autoTransactions nth_autoTransactions autoTransaction_def)

lemma autoTransactions_tagged:
  "t \<in> set (autoTransactions env st) \<Longrightarrow> monthKey t = currentMonthKey st \<and> isFixed t = Some True"
  by (auto simp: autoTransactions_def autoTransaction_def in_set_enumerate_eq)

lemma filter_autoTransactions:
  "filter (\<lambda>t. monthKey t = currentMonthKey st \<and> isFixed t = Some True) (autoTransactions env st)
   = autoTransactions env st"
  by (rule filter_True) (simp add: autoTransactions_tagged)

lemma currentMonthKey_startNewMonth:
  "currentMonthKey (startNewMonth env inc roll st) = currentMonthKey st"
  by (simp add: startNewMonth_def currentMonthKey_def)

text \<open>
  Claim C2, as the code has it. After \<open>startNewMonth\<close> with an income and a rollover, the
  ledger store holds under the current month key the ledger with that income, that
  rollover and the status OPEN (a store holds one ledger per key), and the log is the
  former log followed by exactly one new transaction per registered template, in the
  order of the templates, whatever the templates share: the i-th one is tagged with the
  month, copies the amount and the category of the i-th template, is described by the
  name of the template followed by the marker of a recurring charge, is marked as
  automated, and has as id the text of the clock reading followed by the text of the
  random draw of its turn. The number of automated transactions of the month grows by
  exactly the number of templates. Nothing makes the ids unique but the readings: two
  new transactions made at the same clock reading have the same id exactly when their
  random draws are the same.
\<close>

theorem startNewMonth_opens_month:
  "monthlyLedgers (startNewMonth env inc roll st) (currentMonthKey st)
     = Some \<lparr> income = inc, rollover = roll, status = ''OPEN'' \<rparr>
   \<and> transactions (startNewMonth env inc roll st) = transactions st @ autoTransactions env st
   \<and> length (autoTransactions env st) = length (recurringExpenses st)
   \<and> (\<forall>i < length (recurringExpenses st).
        autoTransactions env st ! i =
          \<lparr> tx_id = show_int (date_now (env i)) @ math_random (env i),
            monthKey = currentMonthKey st,
            categoryId = rec_categoryId (recurringExpenses st ! i),
            amount = rec_amount (recurringExpenses st ! i),
            description = Some (rec_name (recurringExpenses st ! i) @ '' (Fixo Recorrente)''),
            date = iso_string (env i),
            isFixed = Some True \<rparr>)
   \<and> length (filter (\<lambda>t. monthKey t = currentMonthKey st \<and> isFixed t = Some True)
         (transactions (startNewMonth env inc roll st)))
       = length (filter (\<lambda>t. monthKey t = currentMonthKey st \<and> isFixed t = Some True)
           (transactions st)) + length (recurringExpenses st)
   \<and> (\<forall>i < length (recurringExpenses st). \<forall>j < length (recurringExpenses st).
        date_now (env i) = date_now (env j) \<longrightarrow>
          (tx_id (autoTransactions env st ! i) = tx_id (autoTransactions env st ! j)
           \<longleftrightarrow> math_random (env i) = math_random (env j)))"
proof -
  let ?st' = "startNewMonth env inc roll st"
  have l: "monthlyLedgers ?st' (currentMonthKey st)
     = Some \<lparr> income = inc, rollover = roll, status = ''OPEN'' \<rparr>"
    by (simp add: startNewMonth_def)
  have t: "transactions ?st' = transactions st @ autoTransactions env st"
    by (simp add: startNewMonth_def)
  have f: "\<forall>i < length (recurringExpenses st).
        autoTransactions env st ! i =
          \<lparr> tx_id = show_int (date_now (env i)) @ math_random (env i),
            monthKey = currentMonthKey st,
            categoryId = rec_categoryId (recurringExpenses st ! i),
            amount = rec_amount (recurringExpenses st ! i),
            description = Some (rec_name (recurringExpenses st ! i) @ '' (Fixo Recorrente)''),
            date = iso_string (env i),
            isFixed = Some True \<rparr>"
    by (simp add: nth_autoTransactions autoTransaction_def auto_id_def)
  have c: "length (filter (\<lambda>t. monthKey t = currentMonthKey st \<and> isFixed t = Some True)
         (transactions ?st'))
       = length (filter (\<lambda>t. monthKey t = currentMonthKey st \<and> isFixed t = Some True)
           (transactions st)) + length (recurringExpenses st)"
    unfolding t by (simp add: filter_autoTransactions length_autoTransactions)
  have d: "\<forall>i < length (recurringExpenses st). \<forall>j < length (recurringExpenses st).
        date_now (env i) = date_now (env j) \<longrightarrow>
          (tx_id (autoTransactions env st ! i) = tx_id (autoTransactions env st ! j)
           \<longleftrightarrow> math_random (env i) = math_random (env j))"
    by (simp add: nth_autoTransactions autoTransaction_def auto_id_def)
  show ?thesis
    by (intro conjI l t f c d length_autoTransactions)
qed

lemma auto_id_ex_0: "auto_id (ex_env 0) = ''17620000000000.1''"
  by (simp add: auto_id_def ex_env_def eval_key)

lemma auto_id_ex_1: "auto_id (ex_env (Suc 0)) = ''17620000000000.2''"
  by (simp add: auto_id_def ex_env_def eval_key)

lemma auto_id_ex_same: "auto_id (ex_env_same i) = ''17620000000000.5''"
  by (simp add: auto_id_def ex_env_same_def eval_key)

lemma all_less_2: "(\<forall>i<2. P i) = (P 0 \<and> P (1::nat))"
  by (auto simp: numeral_2_eq_2 less_Suc_eq)

lemma ex_november:
  "currentMonthKey (ex_state inc (Date 2025 10) v) = ''2025-11''"
  "recurringExpenses (ex_state inc d v) = ex_recurring"
  "transactions (ex_state inc d v) = ex_transactions"
  "length ex_recurring = 2"
  by (simp_all add: currentMonthKey_def ex_state_def key_2025_11 ex_recurring_def)

theorem startNewMonth_opens_month_witness:
  "(0::nat) < length ex_recurring \<and> (1::nat) < length ex_recurring
   \<and> date_now (ex_env 0) = date_now (ex_env 1)
   \<and> math_random (ex_env 0) \<noteq> math_random (ex_env 1)
   \<and> monthlyLedgers (startNewMonth ex_env 3000 500 (ex_state 3000 (Date 2025 10) Dashboard)) ''2025-11''
       = Some \<lparr> income = 3000, rollover = 500, status = ''OPEN'' \<rparr>
   \<and> length (transactions (startNewMonth ex_env 3000 500 (ex_state 3000 (Date 2025 10) Dashboard))) = 4
   \<and> autoTransactions ex_env (ex_state 3000 (Date 2025 10) Dashboard) ! 0
       = \<lparr> tx_id = ''17620000000000.1'', monthKey = ''2025-11'', categoryId = ''101'',
           amount = 1200, description = Some ''Aluguel (Fixo Recorrente)'',
           date = ''2025-11-01T12:26:40.000Z'', isFixed = Some True \<rparr>
   \<and> autoTransactions ex_env (ex_state 3000 (Date 2025 10) Dashboard) ! 1
       = \<lparr> tx_id = ''17620000000000.2'', monthKey = ''2025-11'', categoryId = ''101'',
           amount = 1200, description = Some ''Garagem (Fixo Recorrente)'',
           date = ''2025-11-01T12:26:40.000Z'', isFixed = Some True \<rparr>
   \<and> tx_id (autoTransactions ex_env (ex_state 3000 (Date 2025 10) Dashboard) ! 0)
       \<noteq> tx_id (autoTransactions ex_env (ex_state 3000 (Date 2025 10) Dashboard) ! 1)"
proof -
  let ?st = "ex_state 3000 (Date 2025 10) Dashboard"
  have e: "show_int (date_now (ex_env i)) @ math_random (ex_env i) = auto_id (ex_env i)"
      "iso_string (ex_env i) = ''2025-11-01T12:26:40.000Z''" for i
    by (simp_all add: auto_id_def ex_env_def)
  have r: "date_now (ex_env 0) = date_now (ex_env 1)"
      "math_random (ex_env 0) \<noteq> math_random (ex_env 1)"
    by (simp_all add: ex_env_def eval_key)
  show ?thesis
    using r startNewMonth_opens_month [of ex_env 3000 500 ?st]
    unfolding ex_november e
    by (simp add: all_less_2 auto_id_ex_0 auto_id_ex_1 ex_transactions_def ex_recurring_def)
qed

text \<open>
  Claim C2 as stated fails in its last part: when the clock value and the random draw
  are the same at both turns, the two new transactions carry the same id, and the ids
  of the log are no longer distinct.
\<close>

theorem startNewMonth_ids_counterexample:
  "length (recurringExpenses (ex_state 3000 (Date 2025 10) Dashboard)) = 2
   \<and> tx_id (autoTransactions ex_env_same (ex_state 3000 (Date 2025 10) Dashboard) ! 0)
       = ''17620000000000.5''
   \<and> tx_id (autoTransactions ex_env_same (ex_state 3000 (Date 2025 10) Dashboard) ! 1)
       = ''17620000000000.5''
   \<and> \<not> distinct (map tx_id
         (transactions (startNewMonth ex_env_same 3000 500 (ex_state 3000 (Date 2025 10) Dashboard))))"
proof -
  let ?st = "ex_state 3000 (Date 2025 10) Dashboard"
  have m: "map tx_id (autoTransactions ex_env_same ?st) = [''17620000000000.5'', ''17620000000000.5'']"
    by (simp add: map_tx_id_autoTransactions ex_november auto_id_ex_same numeral_2_eq_2)
  have n: "tx_id (autoTransactions ex_env_same ?st ! i)
      = map tx_id (autoTransactions ex_env_same ?st) ! i" if "i < 2" for i
    using that by (simp add: length_autoTransactions ex_november)
  have "transactions (startNewMonth ex_env_same 3000 500 ?st)
      = transactions ?st @ autoTransactions ex_env_same ?st"
    by (simp add: startNewMonth_def)
  then have "\<not> distinct (map tx_id (transactions (startNewMonth ex_env_same 3000 500 ?st)))"
    by (simp add: m)
  then show ?thesis
    using n [of 0] n [of 1] by (simp add: m ex_november)
qed

text \<open>
  Claim C10. \<open>startNewMonth\<close> leaves the categories, the templates and the date of the
  screen as they are; every transaction of the former log is still in the log, at its
  place and unchanged; and the ledger under every key other than the current month key
  is unchanged.
\<close>

theorem startNewMonth_frame:
  "categories (startNewMonth env inc roll st) = categories st
   \<and> recurringExpenses (startNewMonth env inc roll st) = recurringExpenses st
   \<and> currentDate (startNewMonth env inc roll st) = currentDate st
   \<and> take (length (transactions st)) (transactions (startNewMonth env inc roll st)) = transactions st
   \<and> (\<forall>i < length (transactions st).
         transactions (startNewMonth env inc roll st) ! i = transactions st ! i)
   \<and> (\<forall>k. k \<noteq> currentMonthKey st \<longrightarrow>
         monthlyLedgers (startNewMonth env inc roll st) k = monthlyLedgers st k)"
  by (simp add: startNewMonth_def nth_append)

lemma ex_october:
  "currentMonthKey (ex_state inc (Date 2025 9) v) = ''2025-10''"
  by (simp add: currentMonthKey_def ex_state_def key_2025_10)

theorem startNewMonth_frame_witness:
  "(0::nat) < length (transactions (ex_state 3000 (Date 2025 10) Dashboard))
   \<and> ''2025-10'' \<noteq> currentMonthKey (ex_state 3000 (Date 2025 10) Dashboard)
   \<and> transactions (startNewMonth ex_env 3000 500 (ex_state 3000 (Date 2025 10) Dashboard)) ! 0
       = ex_transactions ! 0
   \<and> monthlyLedgers (startNewMonth ex_env 3000 500 (ex_state 3000 (Date 2025 10) Dashboard)) ''2025-10''
       = Some \<lparr> income = 3000, rollover = 0, status = ''OPEN'' \<rparr>
   \<and> categories (startNewMonth ex_env 3000 500 (ex_state 3000 (Date 2025 10) Dashboard)) = ex_categories"
  using startNewMonth_frame [of ex_env 3000 500 "ex_state 3000 (Date 2025 10) Dashboard"]
  unfolding ex_november
  by (simp add: ex_state_def ex_transactions_def)

subsection \<open>Opening a month twice\<close>

lemma screen_Setup_iff: "screen st = SetupScreen \<longleftrightarrow> currentLedger st = None \<and> view st \<noteq> Settings"
  by (simp add: screen_def)

text \<open>
  Claim C3, as the code has it. \<open>startNewMonth\<close> tests nothing and signals no error:
  run for a month that has a ledger or not, it stores the new ledger under the current
  month key and appends one automated transaction per template. What keeps a month from
  being opened twice is the screen: the setup form, the only caller, is shown only while
  the current month has no ledger, so with a ledger present the form cannot be
  submitted; without one, and outside the settings, a whole income is accepted.
\<close>

theorem startNewMonth_unguarded:
  "(currentLedger st \<noteq> None \<longrightarrow> submitSetup env incomeValue st = None)
   \<and> (currentLedger st = None \<and> view st \<noteq> Settings \<and> frac incomeValue = 0 \<longrightarrow>
        submitSetup env incomeValue st
          = Some (startNewMonth env incomeValue (calculateRollover st (currentMonthKey st)) st))
   \<and> length (transactions (startNewMonth env inc roll st))
       = length (transactions st) + length (recurringExpenses st)
   \<and> currentLedger (startNewMonth env inc roll st)
       = Some \<lparr> income = inc, rollover = roll, status = ''OPEN'' \<rparr>"
proof -
  have "length (transactions (startNewMonth env inc roll st))
       = length (transactions st) + length (recurringExpenses st)"
    by (simp add: startNewMonth_def length_autoTransactions)
  moreover have "currentLedger (startNewMonth env inc roll st)
       = Some \<lparr> income = inc, rollover = roll, status = ''OPEN'' \<rparr>"
    unfolding currentLedger_def currentMonthKey_startNewMonth
    by (simp add: startNewMonth_def)
  ultimately show ?thesis
    by (simp add: submitSetup_def screen_Setup_iff)
qed

theorem startNewMonth_unguarded_witness:
  "currentLedger (ex_state 3000 (Date 2025 9) Dashboard) \<noteq> None
   \<and> submitSetup ex_env 5000 (ex_state 3000 (Date 2025 9) Dashboard) = None
   \<and> currentLedger (ex_state 3000 (Date 2025 10) Dashboard) = None
   \<and> view (ex_state 3000 (Date 2025 10) Dashboard) \<noteq> Settings
   \<and> frac (5000::real) = 0
   \<and> submitSetup ex_env 5000 (ex_state 3000 (Date 2025 10) Dashboard)
       = Some (startNewMonth ex_env 5000 500 (ex_state 3000 (Date 2025 10) Dashboard))"
proof -
  have a: "currentLedger (ex_state 3000 (Date 2025 9) Dashboard) \<noteq> None"
    by (simp add: currentLedger_def ex_october) (simp add: ex_state_def)
  have b: "currentLedger (ex_state 3000 (Date 2025 10) Dashboard) = None"
    by (simp add: currentLedger_def ex_november) (simp add: ex_state_def)
  have c: "view (ex_state 3000 (Date 2025 10) Dashboard) \<noteq> Settings"
    by (simp add: ex_state_def)
  have r: "calculateRollover (ex_state 3000 (Date 2025 10) Dashboard) ''2025-11'' = 500"
    by (simp add: calculateRollover_def prevKey_def prevDate_def Number_str_def is_digit_def
        digit_val_def new_Date_def eval_key ex_state_def ex_transactions_def sum_amounts_def)
  show ?thesis
    using a b c r
      startNewMonth_unguarded [of "ex_state 3000 (Date 2025 9) Dashboard" ex_env 5000]
      startNewMonth_unguarded [of "ex_state 3000 (Date 2025 10) Dashboard" ex_env 5000]
    by (simp add: ex_november)
qed

text \<open>
  Claim C3 as stated fails: October 2025 has a ledger, and \<open>startNewMonth\<close> run for it
  again replaces the ledger and makes the log two transactions longer.
\<close>

theorem startNewMonth_twice_counterexample:
  "currentLedger (ex_state 3000 (Date 2025 9) Dashboard)
     = Some \<lparr> income = 3000, rollover = 0, status = ''OPEN'' \<rparr>
   \<and> length (transactions (ex_state 3000 (Date 2025 9) Dashboard)) = 2
   \<and> length (transactions (startNewMonth ex_env 5000 0 (ex_state 3000 (Date 2025 9) Dashboard))) = 4
   \<and> currentLedger (startNewMonth ex_env 5000 0 (ex_state 3000 (Date 2025 9) Dashboard))
     = Some \<lparr> income = 5000, rollover = 0, status = ''OPEN'' \<rparr>"
proof -
  let ?st = "ex_state 3000 (Date 2025 9) Dashboard"
  have "monthlyLedgers ?st ''2025-10'' = Some \<lparr> income = 3000, rollover = 0, status = ''OPEN'' \<rparr>"
    by (simp add: ex_state_def)
  then have a: "currentLedger ?st = Some \<lparr> income = 3000, rollover = 0, status = ''OPEN'' \<rparr>"
    by (simp only: currentLedger_def ex_october)
  have b: "length (transactions ?st) = 2"
    by (simp add: ex_state_def ex_transactions_def)
  have "length (recurringExpenses ?st) = 2"
    by (simp add: ex_state_def ex_recurring_def)
  with b have c: "length (transactions (startNewMonth ex_env 5000 0 ?st)) = 4"
    by (simp add: startNewMonth_def length_autoTransactions)
  have "monthlyLedgers (startNewMonth ex_env 5000 0 ?st) (currentMonthKey ?st)
      = Some \<lparr> income = 5000, rollover = 0, status = ''OPEN'' \<rparr>"
    by (simp add: startNewMonth_def)
  then have d: "currentLedger (startNewMonth ex_env 5000 0 ?st)
      = Some \<lparr> income = 5000, rollover = 0, status = ''OPEN'' \<rparr>"
    by (simp only: currentLedger_def currentMonthKey_startNewMonth)
  from a b c d show ?thesis
    by (intro conjI)
qed

subsection \<open>The figures of the dashboard\<close>

lemma ex_october_ledger:
  "currentLedger (ex_state inc (Date 2025 9) v) = Some \<lparr> income = inc, rollover = 0, status = ''OPEN'' \<rparr>"
  unfolding currentLedger_def ex_october by (simp add: ex_state_def)

lemma ex_october_transactions:
  "currentTransactions (ex_state inc (Date 2025 9) v) = ex_transactions"
  unfolding currentTransactions_def ex_october by (simp add: ex_state_def ex_transactions_def)



subsection \<open>Spending by category\<close>

lemma sum_filter_split:
  fixes f :: "'a \<Rightarrow> real"
  assumes "\<And>x. x \<in> set xs \<Longrightarrow> \<not> (P x \<and> Q x)"
  shows "sum_list (map f (filter P xs)) + sum_list (map f (filter Q xs))
       = sum_list (map f (filter (\<lambda>x. P x \<or> Q x) xs))"
  using assms by (induction xs) auto

lemma sum_list_filter_le:
  fixes f :: "'a \<Rightarrow> real"
  assumes "\<And>x. 0 \<le> f x"
  shows "sum_list (map f (filter P xs)) \<le> sum_list (map f xs)"
proof (induction xs)
  case Nil
  then show ?case by simp
next
  case (Cons x xs)
  then show ?case
    using assms [of x] by simp
qed

lemma sum_over_distinct_ids_of:
  fixes f :: "transaction \<Rightarrow> real"
  assumes "distinct ids"
  shows "sum_list (map (\<lambda>c. sum_list (map f (filter (\<lambda>t. categoryId t = c) ts))) ids)
       = sum_list (map f (filter (\<lambda>t. categoryId t \<in> set ids) ts))"
  using assms
proof (induction ids)
  case Nil
  then show ?case by simp
next
  case (Cons c ids)
  then have ih: "sum_list (map (\<lambda>c. sum_list (map f (filter (\<lambda>t. categoryId t = c) ts))) ids)
       = sum_list (map f (filter (\<lambda>t. categoryId t \<in> set ids) ts))"
    by simp
  have "sum_list (map f (filter (\<lambda>t. categoryId t = c) ts))
        + sum_list (map f (filter (\<lambda>t. categoryId t \<in> set ids) ts))
      = sum_list (map f (filter (\<lambda>t. categoryId t = c \<or> categoryId t \<in> set ids) ts))"
    using Cons.prems by (intro sum_filter_split) auto
  with ih show ?case by simp
qed

lemma whole_amounts_filter:
  assumes "whole_amounts (map amount ts)"
  shows "whole_amounts (map amount (filter P ts))"
proof -
  have "sum_list (map (\<lambda>t. \<bar>amount t\<bar>) (filter P ts)) \<le> sum_list (map (\<lambda>t. \<bar>amount t\<bar>) ts)"
    by (rule sum_list_filter_le) simp
  then show ?thesis
    using assms by (auto simp: whole_amounts_def list_all_iff comp_def)
qed

text \<open>
  Claim C5, as the code has it. When the ids of the registered categories are pairwise
  distinct, every transaction of the month on the screen carries the id of a
  registered category, and the amounts of the month are whole numbers within the safe
  integers, the total spent of the month is the sum, over the registered categories, of
  the spending of the category, and both are the exact sum of the amounts.
\<close>

theorem totalSpent_f64_by_category:
  assumes d: "distinct (map cat_id (categories st))"
    and r: "\<forall>t \<in> set (currentTransactions st). categoryId t \<in> set (map cat_id (categories st))"
    and w: "whole_amounts (map amount (currentTransactions st))"
  shows "totalSpent_f64 st = spent_over_categories_f64 st
       \<and> totalSpent_f64 st = Num (sum_list (map amount (currentTransactions st)))"
proof -
  let ?cur = "currentTransactions st"
  let ?g = "\<lambda>c. sum_list (map amount (filter (\<lambda>t. categoryId t = cat_id c) ?cur))"
  let ?h = "\<lambda>c. sum_list (map (\<lambda>t. \<bar>amount t\<bar>) (filter (\<lambda>t. categoryId t = cat_id c) ?cur))"
  have total: "totalSpent_f64 st = Num (sum_list (map amount ?cur))"
    unfolding totalSpent_f64_def using w by (rule sum_amounts_f64_whole)
  have cat: "getSpentByCategory_f64 st (cat_id c) = Num (?g c)" for c
    unfolding getSpentByCategory_f64_def
    using whole_amounts_filter [OF w] by (rule sum_amounts_f64_whole)
  have fr: "frac (?g c) = 0" for c
    using whole_amounts_filter [OF w, of "\<lambda>t. categoryId t = cat_id c"]
    by (intro frac_sum_list) (simp add: whole_amounts_def)
  have "sum_list (map (\<lambda>c. \<bar>?g c\<bar>) (categories st)) \<le> sum_list (map ?h (categories st))"
  proof (rule sum_list_mono)
    fix c
    show "\<bar>?g c\<bar> \<le> ?h c"
      using abs_sum_list_le [of "map amount (filter (\<lambda>t. categoryId t = cat_id c) ?cur)"]
      by (simp add: comp_def)
  qed
  also have "sum_list (map ?h (categories st))
      = sum_list (map (\<lambda>t. \<bar>amount t\<bar>) (filter (\<lambda>t. categoryId t \<in> set (map cat_id (categories st))) ?cur))"
    using sum_over_distinct_ids_of [OF d, of "\<lambda>t. \<bar>amount t\<bar>" ?cur] by (simp add: comp_def)
  also have "\<dots> \<le> sum_list (map (\<lambda>t. \<bar>amount t\<bar>) ?cur)"
    by (rule sum_list_filter_le) simp
  also have "\<dots> < 2 ^ 53"
    using w by (simp add: whole_amounts_def comp_def)
  finally have bound: "\<bar>0\<bar> + sum_list (map (\<lambda>c. \<bar>?g c\<bar>) (categories st)) < 2 ^ 53"
    by simp
  have "spent_over_categories_f64 st
      = foldl (\<lambda>acc c. js_add acc (Num (?g c))) (Num 0) (categories st)"
    unfolding spent_over_categories_f64_def by (simp only: cat)
  also have "\<dots> = Num (0 + sum_list (map ?g (categories st)))"
    using fr bound by (intro foldl_js_add_whole) auto
  also have "sum_list (map ?g (categories st))
      = sum_list (map amount (filter (\<lambda>t. categoryId t \<in> set (map cat_id (categories st))) ?cur))"
    using sum_over_distinct_ids_of [OF d, of amount ?cur] by (simp add: comp_def)
  also have "filter (\<lambda>t. categoryId t \<in> set (map cat_id (categories st))) ?cur = ?cur"
    using r by (intro filter_True) simp
  finally have "spent_over_categories_f64 st = Num (sum_list (map amount ?cur))"
    by simp
  with total show ?thesis
    by simp
qed

theorem totalSpent_f64_by_category_witness:
  "distinct (map cat_id (categories (ex_state 3000 (Date 2025 9) Dashboard)))
   \<and> currentTransactions (ex_state 3000 (Date 2025 9) Dashboard) = ex_transactions
   \<and> categoryId (ex_transactions ! 0) \<in> set (map cat_id (categories (ex_state 3000 (Date 2025 9) Dashboard)))
   \<and> categoryId (ex_transactions ! 1) \<in> set (map cat_id (categories (ex_state 3000 (Date 2025 9) Dashboard)))
   \<and> whole_amounts (map amount ex_transactions)
   \<and> totalSpent_f64 (ex_state 3000 (Date 2025 9) Dashboard) = Num 2500
   \<and> spent_over_categories_f64 (ex_state 3000 (Date 2025 9) Dashboard) = Num 2500"
proof -
  let ?st = "ex_state 3000 (Date 2025 9) Dashboard"
  have c: "categories ?st = ex_categories"
    by (simp add: ex_state_def)
  have d: "distinct (map cat_id (categories ?st))"
    unfolding c by (simp add: ex_categories_def)
  have r: "\<forall>t \<in> set (currentTransactions ?st). categoryId t \<in> set (map cat_id (categories ?st))"
    unfolding c ex_october_transactions by (simp add: ex_categories_def ex_transactions_def)
  have m: "categoryId (ex_transactions ! 0) \<in> set (map cat_id (categories ?st))"
      "categoryId (ex_transactions ! 1) \<in> set (map cat_id (categories ?st))"
    unfolding c by (simp_all add: ex_categories_def ex_transactions_def)
  have w: "whole_amounts (map amount ex_transactions)"
    by (simp add: whole_amounts_def ex_transactions_def)
  then have w': "whole_amounts (map amount (currentTransactions ?st))"
    by (simp only: ex_october_transactions)
  have s: "sum_list (map amount ex_transactions) = 2500"
    by (simp add: ex_transactions_def)
  have t: "totalSpent_f64 ?st = Num 2500"
    using totalSpent_f64_by_category [OF d r w', THEN conjunct2] s by (simp only: ex_october_transactions)
  have "spent_over_categories_f64 ?st = totalSpent_f64 ?st"
    using totalSpent_f64_by_category [OF d r w', THEN conjunct1] by (rule sym)
  with t have "spent_over_categories_f64 ?st = Num 2500"
    by simp
  with d m w t show ?thesis
    by (simp add: ex_october_transactions)
qed

text \<open>
  Claim C5 as stated fails. With no category registered and one transaction of 1200 in
  the month, the total spent is 1200 and the sum over the categories is 0. And with
  distinct ids and every transaction in a registered category: of the amounts 0.1, 0.2
  and 0.4, logged in this order, the first and the third are of one category; the total
  0.1 + 0.2 + 0.4 is 0.7000000000000001 and the sum over the categories,
  (0.1 + 0.4) + 0.2, is 0.7.
\<close>

theorem totalSpent_f64_by_category_counterexample:
  "totalSpent_f64 ex_orphan = Num 1200 \<and> spent_over_categories_f64 ex_orphan = Num 0
   \<and> distinct (map cat_id (categories ex_cents))
   \<and> map categoryId (currentTransactions ex_cents) = [''101'', ''102'', ''101'']
   \<and> map cat_id (categories ex_cents) = [''101'', ''102'']
   \<and> totalSpent_f64 ex_cents = Num (6305039478318695 / 9007199254740992)
   \<and> spent_over_categories_f64 ex_cents = Num (3152519739159347 / 4503599627370496)
   \<and> totalSpent_f64 ex_cents \<noteq> spent_over_categories_f64 ex_cents"
proof -
  have k: "currentMonthKey ex_orphan = ''2025-10''"
    by (simp add: currentMonthKey_def ex_orphan_def key_2025_10)
  have "fl 1200 = Num 1200"
    using fl_of_int [of 1200] by simp
  then have t: "totalSpent_f64 ex_orphan = Num 1200"
    unfolding totalSpent_f64_def currentTransactions_def k
    by (simp add: ex_orphan_def ex_transactions_def sum_amounts_f64_def)
  have s: "spent_over_categories_f64 ex_orphan = Num 0"
    by (simp add: spent_over_categories_f64_def ex_orphan_def)
  have c: "map cat_id (categories ex_cents) = [''101'', ''102'']"
    by (simp add: ex_cents_def ex_categories_def)
  have i: "map categoryId (currentTransactions ex_cents) = [''101'', ''102'', ''101'']"
    unfolding ex_cents_current by (simp add: ex_cents_def)
  from t s c i show ?thesis
    by (simp add: ex_cents_total ex_cents_by_category)
qed

subsection \<open>The percentage of a category\<close>

text \<open>
  With a positive limit and a spending that is not negative, the percentage is the
  smaller of 100 and the spending in hundredths of the limit, between 0 and 100; with
  a limit of 0 and a positive spending it is 100.
\<close>

lemma percentage_positive_limit:
  assumes "0 < limit cat" and "0 \<le> getSpentByCategory st (cat_id cat)"
  shows "percentage st cat = Num (min 100 (100 * getSpentByCategory st (cat_id cat) / limit cat))"
    and "0 \<le> min 100 (100 * getSpentByCategory st (cat_id cat) / limit cat)"
    and "min 100 (100 * getSpentByCategory st (cat_id cat) / limit cat) \<le> 100"
  using assms by (simp_all add: percentage_def js_div_def Let_def min.commute mult.commute)

lemma percentage_zero_limit_spent:
  assumes "limit cat = 0" and "0 < getSpentByCategory st (cat_id cat)"
  shows "percentage st cat = Num 100"
  using assms by (simp add: percentage_def js_div_def Let_def)

lemma percentage_zero_limit_unspent:
  assumes "limit cat = 0" and "getSpentByCategory st (cat_id cat) = 0"
  shows "percentage st cat = NaN"
  using assms by (simp add: percentage_def js_div_def Let_def)

text \<open>
  Claim C7 at a category with limit 0 and no spending: the division is 0 / 0, and the
  percentage is \<^verbatim>\<open>NaN\<close>, which is not 100 and not a number between 0 and 100.
\<close>

theorem percentage_zero_limit_no_spending:
  "limit (ex_categories ! 2) = 0
   \<and> getSpentByCategory (ex_state 3000 (Date 2025 9) Dashboard) (cat_id (ex_categories ! 2)) = 0
   \<and> percentage (ex_state 3000 (Date 2025 9) Dashboard) (ex_categories ! 2) = NaN
   \<and> percentage (ex_state 3000 (Date 2025 9) Dashboard) (ex_categories ! 2) \<noteq> Num 100"
proof -
  have l: "limit (ex_categories ! 2) = 0" "cat_id (ex_categories ! 2) = ''103''"
    by (simp_all add: ex_categories_def)
  have s: "getSpentByCategory (ex_state 3000 (Date 2025 9) Dashboard) ''103'' = 0"
    by (simp add: getSpentByCategory_def ex_october_transactions ex_transactions_def sum_amounts_eq)
  then have "percentage (ex_state 3000 (Date 2025 9) Dashboard) (ex_categories ! 2) = NaN"
    using l by (intro percentage_zero_limit_unspent) simp_all
  with l s show ?thesis by simp
qed

subsection \<open>Recording a transaction\<close>

lemma screen_AddTransaction:
  "screen st = AddTransactionScreen \<Longrightarrow> currentLedger st \<noteq> None"
  by (auto simp: screen_def split: if_splits)

text \<open>
  Claim C8, as the code has it. The handler of the expense form tests nothing and
  signals no error: it always appends exactly one transaction with the current month
  key, the category of the form and the amount of the form, whatever its sign. A form
  that is submitted is on the screen, which needs a ledger for the current month, and
  holds the id of a registered category; under these two conditions every amount that
  is a multiple of the step is accepted.
\<close>

theorem addTransaction_unvalidated:
  "transactions (addTransaction r categoryValue amountValue st)
     = transactions st @
         [\<lparr> tx_id = show_int (date_now r), monthKey = currentMonthKey st,
            categoryId = categoryValue, amount = amountValue, description = None,
            date = iso_string r, isFixed = None \<rparr>]
   \<and> (submitAddTransaction r categoryValue amountValue st \<noteq> None \<longrightarrow>
        currentLedger st \<noteq> None \<and> categoryValue \<in> set (map cat_id (categories st)))
   \<and> (screen st = AddTransactionScreen \<and> categoryValue \<noteq> [] \<and>
        categoryValue \<in> set (map cat_id (categories st)) \<and> frac (amountValue * 100) = 0 \<longrightarrow>
        submitAddTransaction r categoryValue amountValue st
          = Some (addTransaction r categoryValue amountValue st))"
  by (auto simp: addTransaction_def submitAddTransaction_def dest: screen_AddTransaction)

lemma ex_add_screen: "screen (ex_state inc (Date 2025 9) AddTransaction) = AddTransactionScreen"
  by (simp add: screen_def ex_october_ledger) (simp add: ex_state_def)

theorem addTransaction_unvalidated_witness:
  "screen (ex_state 3000 (Date 2025 9) AddTransaction) = AddTransactionScreen
   \<and> ''101'' \<noteq> []
   \<and> ''101'' \<in> set (map cat_id (categories (ex_state 3000 (Date 2025 9) AddTransaction)))
   \<and> frac ((- 5 :: real) * 100) = 0
   \<and> submitAddTransaction (ex_env 0) ''101'' (- 5) (ex_state 3000 (Date 2025 9) AddTransaction)
       = Some (addTransaction (ex_env 0) ''101'' (- 5) (ex_state 3000 (Date 2025 9) AddTransaction))
   \<and> submitAddTransaction (ex_env 0) ''101'' (- 5) (ex_state 3000 (Date 2025 9) AddTransaction) \<noteq> None
   \<and> currentLedger (ex_state 3000 (Date 2025 9) AddTransaction) \<noteq> None"
proof -
  let ?st = "ex_state 3000 (Date 2025 9) AddTransaction"
  have c: "''101'' \<in> set (map cat_id (categories ?st))"
    by (simp add: ex_state_def ex_categories_def)
  have f: "frac ((- 5 :: real) * 100) = 0"
    by simp
  show ?thesis
    using c f ex_add_screen [of 3000]
      addTransaction_unvalidated [of "ex_env 0" "''101''" "- 5" ?st]
    by simp
qed

text \<open>
  Claim C8 as stated fails: the form with the amount -5, and with the amount 0, is
  accepted and a transaction is appended to the log.
\<close>

theorem addTransaction_nonpositive_counterexample:
  "submitAddTransaction (ex_env 0) ''101'' (- 5) (ex_state 3000 (Date 2025 9) AddTransaction)
     = Some (addTransaction (ex_env 0) ''101'' (- 5) (ex_state 3000 (Date 2025 9) AddTransaction))
   \<and> length (transactions (ex_state 3000 (Date 2025 9) AddTransaction)) = 2
   \<and> length (transactions
        (addTransaction (ex_env 0) ''101'' (- 5) (ex_state 3000 (Date 2025 9) AddTransaction))) = 3
   \<and> amount (last (transactions
        (addTransaction (ex_env 0) ''101'' (- 5) (ex_state 3000 (Date 2025 9) AddTransaction)))) = - 5
   \<and> submitAddTransaction (ex_env 0) ''101'' 0 (ex_state 3000 (Date 2025 9) AddTransaction)
     = Some (addTransaction (ex_env 0) ''101'' 0 (ex_state 3000 (Date 2025 9) AddTransaction))
   \<and> length (transactions
        (addTransaction (ex_env 0) ''101'' 0 (ex_state 3000 (Date 2025 9) AddTransaction))) = 3"
proof -
  let ?st = "ex_state 3000 (Date 2025 9) AddTransaction"
  have c: "''101'' \<in> set (map cat_id (categories ?st))"
    by (simp add: ex_state_def ex_categories_def)
  have l: "length (transactions ?st) = 2"
    by (simp add: ex_state_def ex_transactions_def)
  have a: "submitAddTransaction (ex_env 0) ''101'' v ?st = Some (addTransaction (ex_env 0) ''101'' v ?st)"
    if "frac (v * 100) = 0" for v
    using that c by (simp add: submitAddTransaction_def ex_add_screen)
  have t: "length (transactions (addTransaction (ex_env 0) ''101'' v ?st)) = 3"
      "amount (last (transactions (addTransaction (ex_env 0) ''101'' v ?st))) = v" for v
    using l by (simp_all add: addTransaction_def)
  show ?thesis
    using a [of "- 5"] a [of 0] t l by simp
qed

subsection \<open>Reads\<close>

lemma run_read_state: "run_state (read_state f) c = (f (state c), c)"
  by (simp add: read_state_def)

lemma run_set_state: "run_state (set_state f) c = ((), c \<lparr> state := f (state c) \<rparr>)"
  by (simp add: set_state_def State_Monad.update_def)

lemma run_calculateRollover_m:
  "run_state (calculateRollover_m key) c = (calculateRollover_f64 (state c) key, c)"
  by (simp add: calculateRollover_m_def calculateRollover_f64_def run_read_state Let_def
      split: option.split)

lemma run_currentTransactions_miss:
  assumes "cached c (transactions (state c), currentMonthKey (state c)) = None"
  shows "run_state currentTransactions_m c
       = (currentTransactions (state c),
          c \<lparr> memo := Some ((transactions (state c), currentMonthKey (state c)),
                           currentTransactions (state c)) \<rparr>)"
  using assms
  by (simp add: currentTransactions_m_def useMemo_def currentTransactions_def run_read_state
      Let_def State_Monad.update_def)

lemma run_currentTransactions_hit:
  assumes "cached c (transactions (state c), currentMonthKey (state c)) = Some v"
  shows "run_state currentTransactions_m c = (v, c)"
  using assms by (simp add: currentTransactions_m_def useMemo_def run_read_state)

lemma cached_after:
  "cached (c \<lparr> memo := Some (deps, v) \<rparr>) deps = Some v"
  by (simp add: cached_def)

text \<open>
  The second of two passes in a row finds in the cell what the first left there: it
  gives the same list and writes nothing.
\<close>

lemma currentTransactions_m_stable:
  assumes "run_state currentTransactions_m c = (v, d)"
  shows "state d = state c \<and> run_state currentTransactions_m d = (v, d)"
proof (cases "cached c (transactions (state c), currentMonthKey (state c))")
  case (Some w)
  from run_currentTransactions_hit [OF Some] assms show ?thesis
    by simp
next
  case None
  from run_currentTransactions_miss [OF None] assms
  have v: "v = currentTransactions (state c)"
    and d: "d = c \<lparr> memo := Some ((transactions (state c), currentMonthKey (state c)),
                           currentTransactions (state c)) \<rparr>"
    by simp_all
  have "cached d (transactions (state d), currentMonthKey (state d)) = Some v"
    unfolding d v by (simp add: cached_def currentMonthKey_def)
  then have "run_state currentTransactions_m d = (v, d)"
    by (rule run_currentTransactions_hit)
  then show ?thesis
    unfolding d by simp
qed

text \<open>A cell that holds what the factory stored gives the transactions of the month.\<close>

lemma currentTransactions_m_valid:
  assumes "memo_valid c"
  shows "run_state currentTransactions_m c
       = (currentTransactions (state c),
          c \<lparr> memo := Some ((transactions (state c), currentMonthKey (state c)),
                           currentTransactions (state c)) \<rparr>)"
proof (cases "cached c (transactions (state c), currentMonthKey (state c))")
  case (Some w)
  then have m: "memo c = Some ((transactions (state c), currentMonthKey (state c)), w)"
    by (auto simp: cached_def split: option.splits if_splits)
  with assms have w: "w = currentTransactions (state c)"
    by (simp add: memo_valid_def currentTransactions_def)
  from m have "c \<lparr> memo := Some ((transactions (state c), currentMonthKey (state c)),
                           currentTransactions (state c)) \<rparr> = c"
    unfolding w by simp
  with run_currentTransactions_hit [OF Some] w show ?thesis
    by simp
next
  case None
  then show ?thesis
    by (rule run_currentTransactions_miss)
qed

lemma run_figures_m:
  "run_state figures_m c
   = (case run_state currentTransactions_m c of
        (current, d) \<Rightarrow>
          (\<lparr> fig_totalSpent = sum_amounts_f64 current,
             fig_totalAvailable =
               js_add (Num (or_zero (map_option income (currentLedger (state d)))))
                 (Num (or_zero (map_option rollover (currentLedger (state d))))),
             fig_remainingBalance =
               js_sub (js_add (Num (or_zero (map_option income (currentLedger (state d)))))
                 (Num (or_zero (map_option rollover (currentLedger (state d))))))
                 (sum_amounts_f64 current),
             fig_perCategory =
               map (\<lambda>cat. (cat_id cat,
                      sum_amounts_f64 (filter (\<lambda>t. categoryId t = cat_id cat) current), limit cat,
                      Math_min (js_mul_f64 (js_div_f64
                        (sum_amounts_f64 (filter (\<lambda>t. categoryId t = cat_id cat) current))
                        (limit cat)) 100) 100))
                 (categories (state d)) \<rparr>, d))"
  by (simp add: figures_m_def run_read_state Let_def split: prod.split)

lemma figures_m_stable:
  assumes "run_state figures_m c = (a, d)"
  shows "state d = state c \<and> run_state figures_m d = (a, d)"
proof -
  obtain v e where r: "run_state currentTransactions_m c = (v, e)"
    by (cases "run_state currentTransactions_m c")
  from currentTransactions_m_stable [OF r] have s: "state e = state c"
    and r': "run_state currentTransactions_m e = (v, e)"
    by simp_all
  from assms have e: "e = d"
    unfolding run_figures_m r by simp
  from assms have "run_state figures_m e = (a, d)"
    unfolding run_figures_m [of e] run_figures_m [of c] r r' by auto
  with s show ?thesis
    unfolding e by simp
qed

text \<open>
  With a cell that holds what the factory stored, the figures of a pass are those of
  the state, and the cell stays so; a setter changes the state and leaves the cell.
\<close>

lemma figures_m_valid:
  assumes "memo_valid c"
  shows "run_state figures_m c
       = (figures_of (state c),
          c \<lparr> memo := Some ((transactions (state c), currentMonthKey (state c)),
                           currentTransactions (state c)) \<rparr>)"
  unfolding run_figures_m currentTransactions_m_valid [OF assms]
  by (simp add: figures_of_def totalSpent_f64_def totalAvailable_f64_def remainingBalance_f64_def
      getSpentByCategory_f64_def percentage_f64_def Let_def)

lemma memo_valid_figures_m: "memo_valid c \<Longrightarrow> memo_valid (snd (run_state figures_m c))"
  by (simp add: figures_m_valid memo_valid_def currentTransactions_def)

lemma memo_valid_set_state: "memo_valid c \<Longrightarrow> memo_valid (snd (run_state (set_state f) c))"
  by (simp add: run_set_state memo_valid_def)

lemma figures_after_set_state:
  assumes "memo_valid c"
  shows "fst (run_state (do { set_state f; figures_m }) c) = figures_of (f (state c))"
proof -
  have "memo_valid (c \<lparr> state := f (state c) \<rparr>)"
    using memo_valid_set_state [OF assms, of f] by (simp add: run_set_state)
  then show ?thesis
    by (simp add: run_set_state figures_m_valid)
qed

text \<open>
  A write is not a read: opening a month through the setters lengthens the log by the
  number of the templates.
\<close>

lemma set_state_startNewMonth:
  "length (transactions (state (snd (run_state (set_state (startNewMonth env inc roll)) c))))
   = length (transactions (state c)) + length (recurringExpenses (state c))"
  by (simp add: run_set_state startNewMonth_def Let_def length_autoTransactions)

lemma ex_november_rollover:
  "calculateRollover_f64 (ex_state 3000 (Date 2025 10) Dashboard) ''2025-11'' = Num 500"
proof -
  let ?st = "ex_state 3000 (Date 2025 10) Dashboard"
  have k: "prevKey ''2025-11'' = ''2025-10''"
    by (simp add: eval_prevKey)
  have l: "monthlyLedgers ?st ''2025-10'' = Some \<lparr> income = 3000, rollover = 0, status = ''OPEN'' \<rparr>"
    by (simp add: ex_state_def)
  have t: "filter (\<lambda>t. monthKey t = ''2025-10'') (transactions ?st) = ex_transactions"
    by (simp add: ex_state_def ex_transactions_def)
  have "whole_amounts (3000 # 0 # map amount ex_transactions)"
    by (simp add: whole_amounts_def ex_transactions_def)
  then have "Math_max0 (js_sub (js_add (Num 3000) (Num 0)) (sum_amounts_f64 ex_transactions))
      = Num (max 0 ((3000 + 0) - sum_list (map amount ex_transactions)))"
    by (rule rollover_whole)
  then show ?thesis
    unfolding calculateRollover_f64_def k Let_def l t by (simp add: ex_transactions_def)
qed

lemma ex_october_totals:
  "totalSpent_f64 (ex_state 3000 (Date 2025 9) Dashboard) = Num 2500
   \<and> totalAvailable_f64 (ex_state 3000 (Date 2025 9) Dashboard) = Num 3000
   \<and> remainingBalance_f64 (ex_state 3000 (Date 2025 9) Dashboard) = Num 500"
proof -
  let ?st = "ex_state 3000 (Date 2025 9) Dashboard"
  have "whole_amounts (map amount ex_transactions)"
    by (simp add: whole_amounts_def ex_transactions_def)
  then have "sum_amounts_f64 ex_transactions = Num (sum_list (map amount ex_transactions))"
    by (rule sum_amounts_f64_whole)
  then have s: "totalSpent_f64 ?st = Num 2500"
    by (simp add: totalSpent_f64_def ex_october_transactions ex_transactions_def)
  have "fl 3000 = Num 3000"
    using fl_of_int [of 3000] by simp
  then have a: "totalAvailable_f64 ?st = Num 3000"
    by (simp add: totalAvailable_f64_def ex_october_ledger or_zero_def)
  have "fl 500 = Num 500"
    using fl_of_int [of 500] by simp
  then have "remainingBalance_f64 ?st = Num 500"
    by (simp add: remainingBalance_f64_def s a js_sub_def)
  with s a show ?thesis
    by simp
qed

text \<open>
  Claim C9. Computing the rollover of a month gives the rollover of the state and
  leaves the whole component as it was, so the categories, the templates, the ledgers
  and the log are unchanged, and computing it twice in a row gives the same number
  twice. Computing the figures of the dashboard leaves the state as it was (it writes
  the cell of the memo only), and computing them twice in a row gives the same figures
  twice.
\<close>

theorem reads_leave_state:
  "run_state (calculateRollover_m key) c = (calculateRollover_f64 (state c) key, c)
   \<and> categories (state (snd (run_state (calculateRollover_m key) c))) = categories (state c)
   \<and> recurringExpenses (state (snd (run_state (calculateRollover_m key) c)))
       = recurringExpenses (state c)
   \<and> monthlyLedgers (state (snd (run_state (calculateRollover_m key) c)))
       = monthlyLedgers (state c)
   \<and> transactions (state (snd (run_state (calculateRollover_m key) c))) = transactions (state c)
   \<and> run_state (twice (calculateRollover_m key)) c
       = ((calculateRollover_f64 (state c) key, calculateRollover_f64 (state c) key), c)
   \<and> state (snd (run_state figures_m c)) = state c
   \<and> fst (run_state (twice figures_m) c)
       = (fst (run_state figures_m c), fst (run_state figures_m c))
   \<and> state (snd (run_state (twice figures_m) c)) = state c"
proof -
  obtain a d where f: "run_state figures_m c = (a, d)"
    by (cases "run_state figures_m c")
  from figures_m_stable [OF f] have s: "state d = state c" and f': "run_state figures_m d = (a, d)"
    by simp_all
  have t: "run_state (twice figures_m) c = ((a, a), d)"
    by (simp add: twice_def f f')
  show ?thesis
    unfolding t f by (simp add: run_calculateRollover_m twice_def s)
qed

theorem reads_leave_state_witness:
  "run_state (twice (calculateRollover_m ''2025-11'')) (ex_component (Date 2025 10))
     = ((Num 500, Num 500), ex_component (Date 2025 10))
   \<and> transactions (state (snd (run_state (calculateRollover_m ''2025-11'')
        (ex_component (Date 2025 10))))) = ex_transactions
   \<and> fig_totalSpent (fst (fst (run_state (twice figures_m) (ex_component (Date 2025 9))))) = Num 2500
   \<and> fig_totalSpent (snd (fst (run_state (twice figures_m) (ex_component (Date 2025 9))))) = Num 2500
   \<and> fig_totalAvailable (snd (fst (run_state (twice figures_m) (ex_component (Date 2025 9)))))
       = Num 3000
   \<and> fig_remainingBalance (snd (fst (run_state (twice figures_m) (ex_component (Date 2025 9)))))
       = Num 500
   \<and> state (snd (run_state (twice figures_m) (ex_component (Date 2025 9))))
       = ex_state 3000 (Date 2025 9) Dashboard
   \<and> memo (snd (run_state figures_m (ex_component (Date 2025 9))))
       = Some ((ex_transactions, ''2025-10''), ex_transactions)"
proof -
  let ?c = "ex_component (Date 2025 9)"
  have v: "memo_valid ?c"
    by (simp add: memo_valid_def ex_component_def)
  have s: "state ?c = ex_state 3000 (Date 2025 9) Dashboard"
    by (simp add: ex_component_def)
  have k: "currentMonthKey (ex_state 3000 (Date 2025 9) Dashboard) = ''2025-10''"
    by (simp add: currentMonthKey_def ex_state_def key_2025_10)
  have f: "fst (run_state figures_m ?c) = figures_of (ex_state 3000 (Date 2025 9) Dashboard)"
    and m: "memo (snd (run_state figures_m ?c))
              = Some ((ex_transactions, ''2025-10''), ex_transactions)"
    unfolding figures_m_valid [OF v] s
    by (simp_all add: k ex_october_transactions) (simp add: ex_state_def)
  have r: "state (ex_component (Date 2025 10)) = ex_state 3000 (Date 2025 10) Dashboard"
    by (simp add: ex_component_def)
  show ?thesis
    using reads_leave_state [of "''2025-11''" "ex_component (Date 2025 10)"]
      reads_leave_state [of "''2025-11''" ?c] m
    by (simp add: f s r ex_november_rollover figures_of_def ex_october_totals)
      (simp add: ex_state_def)
qed

end
